theory Spec2Isabelle
  imports Main
begin

section \<open>JavaScript strings\<close>

text \<open>
  A JavaScript string is modelled as a \<open>string\<close>: one \<open>char\<close> per code unit, for the code
  units below 256. The helpers below are the string operations that
  \<^verbatim>\<open>src/renderer/src/utils/markdownConverter.ts\<close> calls.
\<close>

definition is_js_space :: "char \<Rightarrow> bool" where
  \<comment> \<open>the regular expression class \<open>\s\<close>, which is also what \<open>trim\<close> strips: tab, line feed,
      vertical tab, form feed, carriage return, space, no-break space\<close>
  "is_js_space c =
     (c = CHR 0x09 \<or> c = CHR 0x0A \<or> c = CHR 0x0B \<or> c = CHR 0x0C \<or> c = CHR 0x0D \<or>
      c = CHR 0x20 \<or> c = CHR 0xA0)"

definition is_line_terminator :: "char \<Rightarrow> bool" where
  \<comment> \<open>the characters that \<open>.\<close> does not match\<close>
  "is_line_terminator c = (c = CHR 0x0A \<or> c = CHR 0x0D)"

definition trim :: "string \<Rightarrow> string" where
  "trim s = rev (dropWhile is_js_space (rev (dropWhile is_js_space s)))"

definition slice :: "string \<Rightarrow> nat \<Rightarrow> nat \<Rightarrow> string" where
  \<comment> \<open>\<open>s.slice(a, b)\<close> for non-negative indices: empty when \<open>b \<le> a\<close>, clamped to the length\<close>
  "slice s a b = take (b - a) (drop a s)"

definition slice_from :: "string \<Rightarrow> nat \<Rightarrow> string" where
  \<comment> \<open>\<open>s.slice(a)\<close>\<close>
  "slice_from s a = drop a s"

fun index_of_prefix :: "string \<Rightarrow> string \<Rightarrow> nat option" where
  \<comment> \<open>position of the first occurrence of the pattern in the text\<close>
  "index_of_prefix pat [] = (if pat = [] then Some 0 else None)"
| "index_of_prefix pat (c # cs) =
     (if take (length pat) (c # cs) = pat then Some 0
      else map_option Suc (index_of_prefix pat cs))"

definition indexOf :: "string \<Rightarrow> string \<Rightarrow> nat \<Rightarrow> nat option" where
  \<comment> \<open>\<open>s.indexOf(pat, from)\<close>; \<open>None\<close> is the result \<open>-1\<close>\<close>
  "indexOf s pat from = map_option (\<lambda>k. from + k) (index_of_prefix pat (drop from s))"

definition toLowerCase_char :: "char \<Rightarrow> char" where
  "toLowerCase_char c =
     (let n = (of_char c :: nat) in if 65 \<le> n \<and> n \<le> 90 then char_of (n + 32) else c)"

definition toLowerCase :: "string \<Rightarrow> string" where
  "toLowerCase s = map toLowerCase_char s"

definition bool_toString :: "bool \<Rightarrow> string" where
  "bool_toString b = (if b then ''true'' else ''false'')"

section \<open>The task list rule of the markdown engine\<close>

text \<open>
  A token of the engine's flat stream, with the fields \<open>taskListPlugin\<close> reads and writes.
  \<open>attrs\<close> is the list of name/value pairs, empty for the engine's \<open>null\<close>.
\<close>

datatype token =
  Token (type: string) (tag: string) (nesting: int) (attrs: "(string \<times> string) list")
    (content: string) (children: "token list")

fun attrSet :: "string \<Rightarrow> string \<Rightarrow> (string \<times> string) list \<Rightarrow> (string \<times> string) list" where
  \<comment> \<open>replace the first pair of that name, or push a new pair\<close>
  "attrSet name v [] = [(name, v)]"
| "attrSet name v ((k, w) # rest) =
     (if k = name then (name, v) # rest else (k, w) # attrSet name v rest)"

definition token_attrSet :: "string \<Rightarrow> string \<Rightarrow> token \<Rightarrow> token" where
  "token_attrSet name v t =
     Token (type t) (tag t) (nesting t) (attrSet name v (attrs t)) (content t) (children t)"


definition task_item_test :: "string \<Rightarrow> bool" where
  \<comment> \<open>\<^verbatim>\<open>/^\s*\[[ x]\]\s/.test(s)\<close>\<close>
  "task_item_test s =
     (case dropWhile is_js_space s of
        c1 # c2 # c3 # c4 # _ \<Rightarrow>
          c1 = CHR ''['' \<and> (c2 = CHR '' '' \<or> c2 = CHR ''x'') \<and> c3 = CHR '']'' \<and> is_js_space c4
      | _ \<Rightarrow> False)"

definition task_item_match :: "string \<Rightarrow> (string \<times> char \<times> string) option" where
  \<comment> \<open>\<^verbatim>\<open>s.match(/^(\s*)\[([x ])\]\s+(.*)/)\<close>: the three groups, or \<open>None\<close> for \<open>null\<close>\<close>
  "task_item_match s =
     (case dropWhile is_js_space s of
        c1 # c2 # c3 # c4 # rest \<Rightarrow>
          if c1 = CHR ''['' \<and> (c2 = CHR ''x'' \<or> c2 = CHR '' '') \<and> c3 = CHR '']'' \<and> is_js_space c4
          then Some (takeWhile is_js_space s, c2,
                 takeWhile (\<lambda>c. \<not> is_line_terminator c) (dropWhile is_js_space (c4 # rest)))
          else None
      | _ \<Rightarrow> None)"

function hasTaskItems_from :: "token list \<Rightarrow> nat \<Rightarrow> bool" where
  \<comment> \<open>the inner loop over \<open>j\<close> that looks ahead to the first \<open>bullet_list_close\<close>\<close>
  "hasTaskItems_from tokens j =
     (if j < length tokens \<and> type (tokens ! j) \<noteq> ''bullet_list_close'' then
        (if type (tokens ! j) = ''inline'' \<and> task_item_test (content (tokens ! j)) then True
         else hasTaskItems_from tokens (Suc j))
      else False)"
  by pat_completeness auto
termination
  by (relation "measure (\<lambda>(tokens, j). length tokens - j)") auto

declare hasTaskItems_from.simps [simp del]

fun set_parent_checked :: "string \<Rightarrow> token list \<Rightarrow> nat \<Rightarrow> token list" where
  \<comment> \<open>the loop \<open>for (j = i - 1; j >= 0; j--)\<close>, called with \<open>i\<close>: the nearest earlier
      \<open>list_item_open\<close> gets \<open>data-checked\<close>\<close>
  "set_parent_checked v tokens 0 = tokens"
| "set_parent_checked v tokens (Suc j) =
     (if type (tokens ! j) = ''list_item_open''
      then tokens[j := token_attrSet ''data-checked'' v (tokens ! j)]
      else set_parent_checked v tokens j)"

definition checkbox_html :: "bool \<Rightarrow> string" where
  "checkbox_html isChecked =
     ''<input type=\"checkbox\"'' @ (if isChecked then '' checked'' else '''') @ '' disabled>''"

definition rewrite_task_inline :: "bool \<Rightarrow> bool \<Rightarrow> string \<Rightarrow> token \<Rightarrow> token" where
  \<comment> \<open>the new content and children of a matched inline token\<close>
  "rewrite_task_inline label isChecked content' t =
     (if label then
        Token (type t) (tag t) (nesting t) (attrs t) content'
          [Token ''html_inline'' '''' 0 []
             (''<label>'' @ checkbox_html isChecked @ '' '' @ content' @ ''</label>'') []]
      else
        Token (type t) (tag t) (nesting t) (attrs t) content'
          [Token ''html_inline'' '''' 0 [] (checkbox_html isChecked) [],
           Token ''text'' '''' 0 [] ('' '' @ content') []])"

definition task_list_step :: "bool \<Rightarrow> nat \<Rightarrow> bool \<times> token list \<Rightarrow> bool \<times> token list" where
  \<comment> \<open>one iteration of the loop over \<open>i\<close>; the state is \<open>inside_task_list\<close> and the tokens\<close>
  "task_list_step label i st =
     (let inside_task_list = fst st; tokens = snd st; token = tokens ! i in
      if type token = ''bullet_list_open'' then
        (if hasTaskItems_from tokens (Suc i) then
           (True, tokens[i := token_attrSet ''class'' ''task-list''
                                (token_attrSet ''data-type'' ''taskList'' token)])
         else (inside_task_list, tokens))
      else if type token = ''bullet_list_close'' \<and> inside_task_list then (False, tokens)
      else if type token = ''list_item_open'' \<and> inside_task_list then
        (inside_task_list, tokens[i := token_attrSet ''class'' ''task-list-item''
                                          (token_attrSet ''data-type'' ''taskItem'' token)])
      else if type token = ''inline'' \<and> inside_task_list then
        (case task_item_match (content token) of
           None \<Rightarrow> (inside_task_list, tokens)
         | Some (lead, check, content') \<Rightarrow>
             (let isChecked = (toLowerCase_char check = CHR ''x'');
                  tokens1 = set_parent_checked (bool_toString isChecked) tokens i
              in (inside_task_list,
                  tokens1[i := rewrite_task_inline label isChecked content' (tokens1 ! i)])))
      else (inside_task_list, tokens))"

lemma length_set_parent_checked [simp]: "length (set_parent_checked v tokens j) = length tokens"
  by (induction j) auto

lemma length_task_list_step [simp]: "length (snd (task_list_step label i st)) = length (snd st)"
  by (auto simp: task_list_step_def Let_def split: option.splits prod.splits)

function task_list_loop :: "bool \<Rightarrow> nat \<Rightarrow> bool \<times> token list \<Rightarrow> token list" where
  \<comment> \<open>\<open>for (let i = 0; i < tokens.length; i++)\<close>, from \<open>i\<close> on\<close>
  "task_list_loop label i st =
     (if i < length (snd st) then task_list_loop label (Suc i) (task_list_step label i st)
      else snd st)"
  by pat_completeness auto
termination
  by (relation "measure (\<lambda>(label, i, st). length (snd st) - i)") auto

declare task_list_loop.simps [simp del]

record TaskListOptions =
  label :: "bool option"

definition taskListPlugin :: "TaskListOptions \<Rightarrow> token list \<Rightarrow> token list" where
  \<comment> \<open>the core rule that the plugin registers; \<open>const { label = false } = options\<close>\<close>
  "taskListPlugin options tokens =
     task_list_loop (case label options of None \<Rightarrow> False | Some b \<Rightarrow> b) 0 (False, tokens)"

definition md_task_list :: "token list \<Rightarrow> token list" where
  \<comment> \<open>\<open>md.use(taskListPlugin, { label: true })\<close>\<close>
  "md_task_list = taskListPlugin \<lparr>label = Some True\<rparr>"

text \<open>
  The token stream the engine hands to the rule for a bullet list whose items are single
  paragraphs: a \<open>bullet_list_open\<close>, five tokens per item, a \<open>bullet_list_close\<close>.
\<close>

definition list_item_tokens :: "string \<Rightarrow> token list" where
  "list_item_tokens c =
     [Token ''list_item_open'' ''li'' 1 [] '''' [],
      Token ''paragraph_open'' ''p'' 1 [] '''' [],
      Token ''inline'' '''' 0 [] c [Token ''text'' '''' 0 [] c []],
      Token ''paragraph_close'' ''p'' (- 1) [] '''' [],
      Token ''list_item_close'' ''li'' (- 1) [] '''' []]"

definition bullet_list_tokens :: "string list \<Rightarrow> token list" where
  "bullet_list_tokens cs =
     Token ''bullet_list_open'' ''ul'' 1 [] '''' [] # concat (map list_item_tokens cs)
       @ [Token ''bullet_list_close'' ''ul'' (- 1) [] '''' []]"

text \<open>
  What the rule makes of one item of such a list once the list is marked: the item-open
  token always gets the two task item attributes; \<open>data-checked\<close> and the rewritten inline
  token depend on the match.
\<close>

definition task_item_tokens :: "bool \<Rightarrow> string \<Rightarrow> token list" where
  "task_item_tokens lbl c =
     (case task_item_match c of
        None \<Rightarrow>
          [Token ''list_item_open'' ''li'' 1
             [(''data-type'', ''taskItem''), (''class'', ''task-list-item'')] '''' [],
           Token ''paragraph_open'' ''p'' 1 [] '''' [],
           Token ''inline'' '''' 0 [] c [Token ''text'' '''' 0 [] c []],
           Token ''paragraph_close'' ''p'' (- 1) [] '''' [],
           Token ''list_item_close'' ''li'' (- 1) [] '''' []]
      | Some (lead, check, rest) \<Rightarrow>
          [Token ''list_item_open'' ''li'' 1
             [(''data-type'', ''taskItem''), (''class'', ''task-list-item''),
              (''data-checked'', bool_toString (check = CHR ''x''))] '''' [],
           Token ''paragraph_open'' ''p'' 1 [] '''' [],
           rewrite_task_inline lbl (check = CHR ''x'') rest
             (Token ''inline'' '''' 0 [] c [Token ''text'' '''' 0 [] c []]),
           Token ''paragraph_close'' ''p'' (- 1) [] '''' [],
           Token ''list_item_close'' ''li'' (- 1) [] '''' []])"


section \<open>The math rules of the markdown engine\<close>

text \<open>
  \<open>tipTapKatexPlugin\<close> registers a block rule, an inline rule and their two renderers. The
  rules see the engine's state through the interfaces \<open>BlockStateLike\<close> and
  \<open>InlineStateLike\<close>; \<open>pushed\<close> holds the tokens that \<open>state.push\<close> has appended. The engine
  calls a block rule with \<open>startLine < endLine\<close> and the three arrays holding an entry for
  every line, so the array reads below are within range.
\<close>

record TokenLike =
  tl_type :: string
  tl_tag :: string
  tl_nesting :: int
  tl_content :: string
  tl_block :: bool
  tl_map :: "(nat \<times> nat) option"

definition push_token :: "string \<Rightarrow> string \<Rightarrow> int \<Rightarrow> TokenLike" where
  \<comment> \<open>the token that \<open>state.push(type, tag, nesting)\<close> creates\<close>
  "push_token ty tg n =
     \<lparr>tl_type = ty, tl_tag = tg, tl_nesting = n, tl_content = '''', tl_block = False, tl_map = None\<rparr>"

record StateLike =
  src :: string
  pushed :: "TokenLike list"

record BlockStateLike = StateLike +
  bMarks :: "nat list"
  eMarks :: "nat list"
  tShift :: "nat list"
  line :: nat
  parentType :: string
  blkIndent :: nat

record InlineStateLike = StateLike +
  pos :: nat
  posMax :: nat

definition charCodeAt :: "string \<Rightarrow> nat \<Rightarrow> nat option" where
  \<comment> \<open>\<open>None\<close> is \<open>NaN\<close>, the result beyond the end of the string\<close>
  "charCodeAt s i = (if i < length s then Some (of_char (s ! i)) else None)"

fun join :: "string \<Rightarrow> string list \<Rightarrow> string" where
  \<comment> \<open>\<open>xs.join(sep)\<close>\<close>
  "join sep [] = []"
| "join sep [x] = x"
| "join sep (x # y # ys) = x @ sep @ join sep (y # ys)"

definition line_text :: "BlockStateLike \<Rightarrow> nat \<Rightarrow> string" where
  \<comment> \<open>\<open>state.src.slice(state.bMarks[l] + state.tShift[l], state.eMarks[l])\<close>\<close>
  "line_text state l = slice (src state) (bMarks state ! l + tShift state ! l) (eMarks state ! l)"

definition multiline_content :: "BlockStateLike \<Rightarrow> nat \<Rightarrow> nat \<Rightarrow> nat \<Rightarrow> string" where
  \<comment> \<open>the content when line \<open>nextLine\<close> holds the closing \<open>$$\<close> at \<open>closingPos\<close>\<close>
  "multiline_content state startLine nextLine closingPos =
     (let firstLineContent =
            slice (src state) (bMarks state ! startLine + tShift state ! startLine + 2)
              (eMarks state ! startLine);
          lastLineContent = slice (line_text state nextLine) 0 closingPos;
          allLines =
            (if trim firstLineContent \<noteq> [] then [firstLineContent] else [])
            @ map (line_text state) [Suc startLine ..< nextLine]
            @ (if trim lastLineContent \<noteq> [] then [lastLineContent] else [])
      in trim (join [CHR 0x0A] allLines))"

function find_closing :: "BlockStateLike \<Rightarrow> nat \<Rightarrow> nat \<Rightarrow> nat \<Rightarrow> (nat \<times> string) option" where
  \<comment> \<open>the loop \<open>for (nextLine = startLine + 1; nextLine < endLine; nextLine++)\<close>, from
      \<open>nextLine\<close> on: the line of the \<open>break\<close> and the content, or \<open>None\<close> when the loop
      runs out with \<open>nextLine >= endLine\<close>\<close>
  "find_closing state startLine endLine nextLine =
     (if nextLine < endLine then
        (let lineStart = bMarks state ! nextLine + tShift state ! nextLine;
             lineEnd = eMarks state ! nextLine;
             line = slice (src state) lineStart lineEnd
         in case indexOf line ''$$'' 0 of
              Some closingPos \<Rightarrow> Some (nextLine, multiline_content state startLine nextLine closingPos)
            | None \<Rightarrow>
                if lineStart + 2 \<le> lineEnd \<and> charCodeAt (src state) lineStart = Some 0x24
                   \<and> charCodeAt (src state) (lineStart + 1) = Some 0x24
                then Some (nextLine,
                       trim (slice (src state)
                               (bMarks state ! startLine + tShift state ! startLine + 2)
                               (bMarks state ! nextLine)))
                else find_closing state startLine endLine (Suc nextLine))
      else None)"
  by pat_completeness auto
termination
  by (relation "measure (\<lambda>(state, startLine, endLine, nextLine). endLine - nextLine)") auto

declare find_closing.simps [simp del]

definition math_block :: "BlockStateLike \<Rightarrow> nat \<Rightarrow> nat \<Rightarrow> bool \<Rightarrow> bool \<times> BlockStateLike" where
  \<comment> \<open>the block rule: its result and the state it leaves\<close>
  "math_block state startLine endLine silent =
     (let startPos = bMarks state ! startLine + tShift state ! startLine;
          maxPos = eMarks state ! startLine
      in if startPos + 2 > maxPos then (False, state)
         else if charCodeAt (src state) startPos \<noteq> Some 0x24
                 \<or> charCodeAt (src state) (startPos + 1) \<noteq> Some 0x24 then (False, state)
         else if silent then (True, state)
         else
           (case (case indexOf (src state) ''$$'' (startPos + 2) of
                    Some sameLineClose \<Rightarrow>
                      if sameLineClose \<le> maxPos - 2
                      then Some (startLine, trim (slice (src state) (startPos + 2) sameLineClose))
                      else find_closing state startLine endLine (Suc startLine)
                  | None \<Rightarrow> find_closing state startLine endLine (Suc startLine)) of
              None \<Rightarrow> (False, state)
            | Some (nextLine, content') \<Rightarrow>
                (True,
                 state\<lparr>pushed := pushed state @
                          [(push_token ''math_block'' ''div'' 0)
                             \<lparr>tl_content := content', tl_block := True,
                              tl_map := Some (startLine, nextLine)\<rparr>],
                       line := nextLine + 1\<rparr>)))"

definition math_inline :: "InlineStateLike \<Rightarrow> bool \<Rightarrow> bool \<times> InlineStateLike" where
  \<comment> \<open>the inline rule: its result and the state it leaves\<close>
  "math_inline state silent =
     (let start = pos state
      in if start \<ge> posMax state \<or> charCodeAt (src state) start \<noteq> Some 0x24 then (False, state)
         else
           (case indexOf (src state) ''$'' (start + 1) of
              None \<Rightarrow> (False, state)
            | Some close \<Rightarrow>
                if close > posMax state then (False, state)
                else
                  (let content' = slice (src state) (start + 1) close
                   in if indexOf content' [CHR 0x0A] 0 \<noteq> None then (False, state)
                      else
                        (True,
                         (if \<not> silent
                          then state\<lparr>pushed := pushed state @
                                   [(push_token ''math_inline'' ''span'' 0)
                                      \<lparr>tl_content := trim content'\<rparr>]\<rparr>
                          else state)\<lparr>pos := close + 1\<rparr>))))"

text \<open>
  The two renderers. The entity encoder \<open>he.encode(_, { useNamedReferences: true })\<close> belongs
  to the library \<open>he\<close> and is a parameter.
\<close>

definition math_block_render :: "(string \<Rightarrow> string) \<Rightarrow> TokenLike \<Rightarrow> string" where
  "math_block_render he_encode token =
     ''<div data-latex=\"'' @ he_encode (tl_content token) @ ''\" data-type=\"block-math\"></div>''"

definition math_inline_render :: "(string \<Rightarrow> string) \<Rightarrow> TokenLike \<Rightarrow> string" where
  "math_inline_render he_encode token =
     ''<span data-latex=\"'' @ he_encode (tl_content token) @ ''\" data-type=\"inline-math\"></span>''"

section \<open>The rules of the HTML-to-Markdown serializer\<close>

text \<open>
  The serializer hands its rules DOM nodes. A node is an element with its upper-case
  \<open>nodeName\<close>, its attributes and its child nodes, or a text node. The entity decoder
  \<open>he.decode(_, { isAttributeValue: false, strict: false })\<close> belongs to the library \<open>he\<close> and
  is a parameter, as is the serializer's own flag \<open>node.isBlock\<close>.
\<close>

datatype dom_node =
  Element (nodeName: string) (attributes: "(string \<times> string) list") (childNodes: "dom_node list")
| TextNode (nodeValue: string)

fun is_element :: "dom_node \<Rightarrow> bool" where
  "is_element (Element n a cs) = True"
| "is_element (TextNode s) = False"

fun getAttribute :: "dom_node \<Rightarrow> string \<Rightarrow> string option" where
  \<comment> \<open>\<open>None\<close> is \<open>null\<close>; a text node has no such method, and \<open>?.\<close> then gives \<open>undefined\<close>\<close>
  "getAttribute (Element n a cs) name = map_of a name"
| "getAttribute (TextNode s) name = None"

fun descendants :: "dom_node \<Rightarrow> dom_node list" where
  \<comment> \<open>the nodes below a node, in document order\<close>
  "descendants (Element n a cs) = concat (map (\<lambda>c. c # descendants c) cs)"
| "descendants (TextNode s) = []"

definition querySelectorAll_data_type :: "dom_node \<Rightarrow> string \<Rightarrow> dom_node list" where
  \<comment> \<open>\<open>el.querySelectorAll('[data-type="v"]')\<close>\<close>
  "querySelectorAll_data_type el v =
     filter (\<lambda>d. is_element d \<and> getAttribute d ''data-type'' = Some v) (descendants el)"

definition querySelector_data_type :: "dom_node \<Rightarrow> string \<Rightarrow> dom_node option" where
  \<comment> \<open>\<open>el.querySelector('[data-type="v"]')\<close>\<close>
  "querySelector_data_type el v =
     (case querySelectorAll_data_type el v of [] \<Rightarrow> None | d # ds \<Rightarrow> Some d)"

definition element_children :: "dom_node \<Rightarrow> dom_node list" where
  \<comment> \<open>\<open>el.children\<close>\<close>
  "element_children el = (case el of Element n a cs \<Rightarrow> filter is_element cs | TextNode s \<Rightarrow> [])"

definition or_empty :: "string option \<Rightarrow> string" where
  \<comment> \<open>\<open>v || ''\<close>\<close>
  "or_empty v = (case v of None \<Rightarrow> '''' | Some s \<Rightarrow> s)"

definition blankReplacement :: "(string \<Rightarrow> string) \<Rightarrow> string \<Rightarrow> dom_node \<Rightarrow> bool \<Rightarrow> string" where
  \<comment> \<open>the option \<open>blankReplacement\<close> of the serializer; the last argument is \<open>node.isBlock\<close>\<close>
  "blankReplacement he_decode content' el isBlock =
     (if is_element el \<and> nodeName el = ''DIV'' \<and> getAttribute el ''data-type'' = Some ''block-math''
      then ''$$'' @ he_decode (or_empty (getAttribute el ''data-latex'')) @ ''$$'' @ [CHR 0x0A, CHR 0x0A]
      else if is_element el \<and> nodeName el = ''SPAN''
              \<and> getAttribute el ''data-type'' = Some ''inline-math''
      then ''$'' @ he_decode (or_empty (getAttribute el ''data-latex'')) @ ''$''
      else
        (let mathSpans = querySelectorAll_data_type el ''inline-math''
         in if is_element el \<and> nodeName el = ''P'' \<and> mathSpans \<noteq> []
               \<and> length mathSpans = 1 \<and> length (element_children el) = 1
            then ''$'' @ he_decode (or_empty (getAttribute (hd mathSpans) ''data-latex'')) @ ''$''
            else if isBlock then [CHR 0x0A, CHR 0x0A] else ''''))"

function replace_runs :: "(char \<Rightarrow> bool) \<Rightarrow> string \<Rightarrow> string \<Rightarrow> string" where
  \<comment> \<open>\<open>s.replace(/C+/g, rep)\<close> for a character class \<open>C\<close>\<close>
  "replace_runs P rep [] = []"
| "replace_runs P rep (c # cs) =
     (if P c then rep @ replace_runs P rep (dropWhile P cs) else c # replace_runs P rep cs)"
  by pat_completeness auto
termination
  by (relation "measure (\<lambda>(P, rep, s). length s)")
     (auto simp: less_Suc_eq_le length_dropWhile_le)

definition replace_char :: "char \<Rightarrow> string \<Rightarrow> string \<Rightarrow> string" where
  \<comment> \<open>\<open>s.replace(/c/g, rep)\<close> for one character\<close>
  "replace_char c rep s = concat (map (\<lambda>x. if x = c then rep else [x]) s)"

definition cleanCellContent :: "(string \<Rightarrow> string) \<Rightarrow> string \<Rightarrow> dom_node option \<Rightarrow> string" where
  "cleanCellContent he_decode content' cellElement =
     (case (case cellElement of
              None \<Rightarrow> None
            | Some el \<Rightarrow>
                (case querySelector_data_type el ''block-math'' of
                   Some blockMath \<Rightarrow>
                     Some (''$$'' @ he_decode (or_empty (getAttribute blockMath ''data-latex'')) @ ''$$'')
                 | None \<Rightarrow>
                     (case querySelector_data_type el ''inline-math'' of
                        Some inlineMath \<Rightarrow>
                          Some (''$'' @ he_decode (or_empty (getAttribute inlineMath ''data-latex'')) @ ''$'')
                      | None \<Rightarrow> None))) of
        Some math \<Rightarrow> math
      | None \<Rightarrow>
          if content' = [] then ''   ''
          else
            (let cleaned =
                   replace_runs (\<lambda>c. c = CHR 0x0D) '' ''
                     (replace_runs (\<lambda>c. c = CHR 0x0A) '' ''
                        (replace_char CHR ''|'' [CHR 0x5C, CHR ''|'']
                           (replace_runs is_js_space '' '' (trim content'))))
             in if cleaned = [] \<or> list_all is_js_space cleaned then ''   ''
                else if length cleaned < 3 then cleaned @ replicate (3 - length cleaned) CHR '' ''
                else cleaned))"

definition is_digit :: "char \<Rightarrow> bool" where
  "is_digit c = (48 \<le> (of_char c :: nat) \<and> (of_char c :: nat) \<le> 57)"

definition digit_value :: "char \<Rightarrow> int" where
  "digit_value c = int (of_char c) - 48"

definition parseInt10 :: "string \<Rightarrow> int option" where
  \<comment> \<open>\<open>parseInt(s, 10)\<close>: leading white space, an optional sign, the longest run of digits;
      \<open>None\<close> is \<open>NaN\<close>. Exact while the value is below \<open>2^53\<close>.\<close>
  "parseInt10 s =
     (let s1 = dropWhile is_js_space s;
          neg = (s1 \<noteq> [] \<and> hd s1 = CHR ''-'');
          s2 = (if s1 \<noteq> [] \<and> (hd s1 = CHR ''-'' \<or> hd s1 = CHR ''+'') then tl s1 else s1);
          ds = takeWhile is_digit s2
      in if ds = [] then None
         else Some ((if neg then - 1 else 1) * foldl (\<lambda>acc d. acc * 10 + digit_value d) 0 ds))"

function colspan_cells :: "int \<Rightarrow> int \<Rightarrow> string \<Rightarrow> string" where
  \<comment> \<open>\<open>for (let i = 1; i < colspan; i++) result += '   |'\<close>, from \<open>i\<close> on\<close>
  "colspan_cells i colspan result' =
     (if i < colspan then colspan_cells (i + 1) colspan (result' @ ''   |'') else result')"
  by pat_completeness auto
termination
  by (relation "measure (\<lambda>(i, colspan, r). nat (colspan - i))") auto

declare colspan_cells.simps [simp del]

definition cellWithLatex ::
  "(string \<Rightarrow> string) \<Rightarrow> string \<Rightarrow> dom_node \<Rightarrow> nat option \<Rightarrow> nat option \<Rightarrow> string" where
  \<comment> \<open>\<open>index\<close> is \<open>None\<close> for \<open>null\<close>; \<open>indexInParent\<close> is \<open>None\<close> when the node has no
      parent, and otherwise its position among the parent's child nodes\<close>
  "cellWithLatex he_decode content' node' index indexInParent =
     (let index1 = (case index of
                      None \<Rightarrow> (case indexInParent of Some k \<Rightarrow> Some k | None \<Rightarrow> None)
                    | Some k \<Rightarrow> Some k);
          index2 = (case index1 of None \<Rightarrow> 0 | Some k \<Rightarrow> k);
          prefix = (if index2 = 0 then ''| '' else '' '');
          cellContent = cleanCellContent he_decode content' (Some node');
          colspan =
            (if is_element node' then
               (case parseInt10 (case getAttribute node' ''colspan'' of
                                   None \<Rightarrow> ''1''
                                 | Some v \<Rightarrow> if v = [] then ''1'' else v) of
                  None \<Rightarrow> 1
                | Some n \<Rightarrow> if n < 1 then 1 else n)
             else 1)
      in colspan_cells 1 colspan (prefix @ cellContent @ '' |''))"

text \<open>The decimal numeral of a number, as an attribute value such as \<open>colspan="3"\<close> has it.\<close>

fun decimal :: "nat \<Rightarrow> string" where
  "decimal n =
     (if n < 10 then [char_of (48 + n)] else decimal (n div 10) @ [char_of (48 + n mod 10)])"

declare decimal.simps [simp del]

section \<open>The custom tag guard\<close>

text \<open>
  Modelled from the spec: the fixed closed vocabulary of standard HTML tag names. It is the
  data of the package \<open>html-tags\<close>, which \<open>markdownConverter.ts\<close> imports as \<open>htmlTags\<close> and
  which is not under \<open>src/\<close>.
\<close>

definition htmlTags :: "string list" where
  "htmlTags =
     [''a'', ''abbr'', ''address'', ''area'', ''article'', ''aside'', ''audio'', ''b'', ''base'',
      ''bdi'', ''bdo'', ''blockquote'', ''body'', ''br'', ''button'', ''canvas'', ''caption'',
      ''cite'', ''code'', ''col'', ''colgroup'', ''data'', ''datalist'', ''dd'', ''del'',
      ''details'', ''dfn'', ''dialog'', ''div'', ''dl'', ''dt'', ''em'', ''embed'', ''fieldset'',
      ''figcaption'', ''figure'', ''footer'', ''form'', ''h1'', ''h2'', ''h3'', ''h4'', ''h5'',
      ''h6'', ''head'', ''header'', ''hgroup'', ''hr'', ''html'', ''i'', ''iframe'', ''img'',
      ''input'', ''ins'', ''kbd'', ''label'', ''legend'', ''li'', ''link'', ''main'', ''map'',
      ''mark'', ''math'', ''menu'', ''menuitem'', ''meta'', ''meter'', ''nav'', ''noscript'',
      ''object'', ''ol'', ''optgroup'', ''option'', ''output'', ''p'', ''param'', ''picture'',
      ''pre'', ''progress'', ''q'', ''rb'', ''rp'', ''rt'', ''rtc'', ''ruby'', ''s'', ''samp'',
      ''script'', ''search'', ''section'', ''select'', ''slot'', ''small'', ''source'', ''span'',
      ''strong'', ''style'', ''sub'', ''summary'', ''sup'', ''svg'', ''table'', ''tbody'', ''td'',
      ''template'', ''textarea'', ''tfoot'', ''th'', ''thead'', ''time'', ''title'', ''tr'',
      ''track'', ''u'', ''ul'', ''var'', ''video'', ''wbr'']"

text \<open>
  \<open>escapeCustomTags\<close> registers three callbacks with the HTML tokenizer and feeds it the
  input. The tokenizer is a library; what it does to the guard is the sequence of callbacks
  it makes, each with the tag name and the values of \<open>parser.startIndex\<close> and
  \<open>parser.endIndex\<close> at that moment. That sequence is the parameter \<open>events\<close>; \<open>onend\<close> comes
  last, once.
\<close>

datatype parser_event =
  OnOpenTagName string nat nat
| OnCloseTag string nat nat

record guard_state =
  result :: string
  currentPos :: nat
  processedPositions :: "nat set"

definition escape_angle_brackets :: "string \<Rightarrow> string" where
  \<comment> \<open>\<^verbatim>\<open>s.replace(/</g, '&lt;').replace(/>/g, '&gt;')\<close>\<close>
  "escape_angle_brackets s = replace_char CHR ''>'' ''&gt;'' (replace_char CHR ''<'' ''&lt;'' s)"

fun close_tag_match :: "string \<Rightarrow> string option" where
  \<comment> \<open>the first group of \<^verbatim>\<open>s.match(/<\/([^>]+)>/)\<close>, or \<open>None\<close> for \<open>null\<close>\<close>
  "close_tag_match [] = None"
| "close_tag_match (c # cs) =
     (if c = CHR ''<'' \<and> cs \<noteq> [] \<and> hd cs = CHR ''/''
         \<and> takeWhile (\<lambda>x. x \<noteq> CHR ''>'') (tl cs) \<noteq> []
         \<and> dropWhile (\<lambda>x. x \<noteq> CHR ''>'') (tl cs) \<noteq> []
      then Some (takeWhile (\<lambda>x. x \<noteq> CHR ''>'') (tl cs))
      else close_tag_match cs)"

definition onopentagname :: "string \<Rightarrow> string \<Rightarrow> nat \<Rightarrow> nat \<Rightarrow> guard_state \<Rightarrow> guard_state" where
  "onopentagname html tagname startPos endPos st =
     (let result1 = result st @ slice html (currentPos st) startPos;
          result2 =
            (if tagname \<notin> set htmlTags
             then result1 @ escape_angle_brackets (slice html startPos (endPos + 1))
             else result1 @ slice html startPos (endPos + 1))
      in st\<lparr>result := result2, currentPos := endPos + 1\<rparr>)"

definition onclosetag :: "string \<Rightarrow> string \<Rightarrow> nat \<Rightarrow> nat \<Rightarrow> guard_state \<Rightarrow> guard_state" where
  "onclosetag html tagname startPos endPos st =
     (if endPos \<in> processedPositions st \<or> endPos + 1 \<le> currentPos st then st
      else
        (let st1 = st\<lparr>processedPositions := insert endPos (processedPositions st)\<rparr>;
             actualTagHtml = slice html startPos (endPos + 1);
             actualTagName = (case close_tag_match actualTagHtml of Some n \<Rightarrow> n | None \<Rightarrow> tagname)
         in if actualTagName \<notin> set htmlTags
            then st1\<lparr>result := result st1 @ slice html (currentPos st1) startPos
                                  @ escape_angle_brackets actualTagHtml,
                     currentPos := endPos + 1\<rparr>
            else st1\<lparr>result := result st1 @ slice html (currentPos st1) (endPos + 1),
                     currentPos := endPos + 1\<rparr>))"

fun on_event :: "string \<Rightarrow> guard_state \<Rightarrow> parser_event \<Rightarrow> guard_state" where
  "on_event html st (OnOpenTagName tagname startPos endPos) = onopentagname html tagname startPos endPos st"
| "on_event html st (OnCloseTag tagname startPos endPos) = onclosetag html tagname startPos endPos st"

definition escapeCustomTags :: "parser_event list \<Rightarrow> string \<Rightarrow> string" where
  "escapeCustomTags events html =
     (let st = foldl (on_event html) \<lparr>result = '''', currentPos = 0, processedPositions = {}\<rparr> events
      in result st @ slice_from html (currentPos st))"

section \<open>The conversion facade\<close>

text \<open>
  An exception that a call can throw is a value \<open>Inl\<close>. The markdown engine's \<open>md.render\<close>
  and the serializer's \<open>turndownService.turndown\<close> are libraries and may throw; they are
  parameters, as are the tokenizer (a function from the input to the callbacks it makes) and
  the entity decoder. The logger call in the \<open>catch\<close> blocks leaves no trace in the result.
\<close>

datatype error = Exception string

definition htmlToMarkdown ::
  "(string \<Rightarrow> parser_event list) \<Rightarrow> (string \<Rightarrow> error + string) \<Rightarrow> (string \<Rightarrow> string)
     \<Rightarrow> string option \<Rightarrow> error + string" where
  \<comment> \<open>the argument is \<open>None\<close> for \<open>null\<close> and \<open>undefined\<close>\<close>
  "htmlToMarkdown parser_events turndown he_decode html =
     (case html of
        None \<Rightarrow> Inr ''''
      | Some h \<Rightarrow>
          if h = [] then Inr ''''
          else
            (case (let encodedHtml = escapeCustomTags (parser_events h) h
                   in case turndown encodedHtml of
                        Inl e \<Rightarrow> Inl e
                      | Inr r \<Rightarrow> Inr (he_decode (trim r))) of
               Inl e \<Rightarrow> Inr ''''
             | Inr finalResult \<Rightarrow> Inr finalResult))"

definition match_title :: "string \<Rightarrow> (string \<times> string) option" where
  \<comment> \<open>\<^verbatim>\<open>\s+"([^"]*)"\<close> followed by \<^verbatim>\<open>\)\<close>: the title and what follows the parenthesis\<close>
  "match_title s =
     (case dropWhile is_js_space s of
        c # r \<Rightarrow>
          if s \<noteq> [] \<and> is_js_space (hd s) \<and> c = CHR 0x22 then
            (case dropWhile (\<lambda>x. x \<noteq> CHR 0x22) r of
               q # p # r' \<Rightarrow>
                 if p = CHR '')'' then Some (takeWhile (\<lambda>x. x \<noteq> CHR 0x22) r, r') else None
             | _ \<Rightarrow> None)
          else None
      | [] \<Rightarrow> None)"

fun match_src_tail :: "string \<Rightarrow> string \<Rightarrow> (string \<times> string option \<times> string) option" where
  \<comment> \<open>\<^verbatim>\<open>([^)]+?)(?:\s+"([^"]*)")?\)\<close>, with the lazy group grown one character at a time:
      the first argument is the group so far\<close>
  "match_src_tail acc [] = None"
| "match_src_tail acc (c # cs) =
     (if acc = [] then (if c = CHR '')'' then None else match_src_tail [c] cs)
      else
        (case match_title (c # cs) of
           Some (title', rest) \<Rightarrow> Some (acc, Some title', rest)
         | None \<Rightarrow>
             if c = CHR '')'' then Some (acc, None, cs) else match_src_tail (acc @ [c]) cs))"

definition match_image :: "string \<Rightarrow> (string \<times> string \<times> string option \<times> string) option" where
  \<comment> \<open>\<^verbatim>\<open>/!\[([^\]]*)\]\(([^)]+?)(?:\s+"([^"]*)")?\)/\<close> at the start of the text: the three
      groups and what follows the match\<close>
  "match_image s =
     (case s of
        c1 # c2 # s1 \<Rightarrow>
          if c1 = CHR ''!'' \<and> c2 = CHR ''['' then
            (case dropWhile (\<lambda>x. x \<noteq> CHR '']'') s1 of
               b1 # b2 # s3 \<Rightarrow>
                 if b2 = CHR ''('' then
                   (case match_src_tail [] s3 of
                      Some (src', title', rest) \<Rightarrow>
                        Some (takeWhile (\<lambda>x. x \<noteq> CHR '']'') s1, src', title', rest)
                    | None \<Rightarrow> None)
                 else None
             | _ \<Rightarrow> None)
          else None
      | _ \<Rightarrow> None)"

definition img_tag :: "string \<Rightarrow> string \<Rightarrow> string option \<Rightarrow> string" where
  "img_tag alt src' title' =
     ''<img src=\"'' @ trim src' @ ''\" alt=\"'' @ alt @ ''\"''
     @ (case title' of
          None \<Rightarrow> ''''
        | Some t \<Rightarrow> if t = [] then '''' else '' title=\"'' @ t @ ''\"'')
     @ '' />''"

lemma match_title_length: "match_title s = Some (t, r) \<Longrightarrow> length r < length s"
proof -
  assume m: "match_title s = Some (t, r)"
  then obtain c r0 where d: "dropWhile is_js_space s = c # r0"
    by (auto simp: match_title_def split: list.splits)
  from m d obtain q p where d2: "dropWhile (\<lambda>x. x \<noteq> CHR 0x22) r0 = q # p # r"
    by (auto simp: match_title_def split: list.splits if_splits)
  have "length (dropWhile (\<lambda>x. x \<noteq> CHR 0x22) r0) \<le> length r0"
    by (rule length_dropWhile_le)
  moreover have "length (dropWhile is_js_space s) \<le> length s"
    by (rule length_dropWhile_le)
  ultimately show ?thesis
    using d d2 by simp
qed

lemma match_src_tail_length:
  "match_src_tail acc s = Some (a, t, r) \<Longrightarrow> length r < length s"
proof (induction acc s rule: match_src_tail.induct)
  case (1 acc)
  then show ?case by simp
next
  case (2 acc c cs)
  show ?case
  proof (cases "acc = []")
    case True
    then show ?thesis
      using 2 by (auto split: if_splits)
  next
    case False
    show ?thesis
    proof (cases "match_title (c # cs)")
      case None
      then show ?thesis
        using 2 False by (auto split: if_splits)
    next
      case (Some m)
      then show ?thesis
        using "2.prems" False match_title_length[of "c # cs" "fst m" "snd m"]
        by (cases m) auto
    qed
  qed
qed

lemma match_image_length:
  "match_image s = Some (alt, a, t, r) \<Longrightarrow> length r < length s"
proof -
  assume m: "match_image s = Some (alt, a, t, r)"
  then obtain c1 c2 s1 where s: "s = c1 # c2 # s1"
    by (auto simp: match_image_def split: list.splits)
  from m s obtain b1 b2 s3 where d: "dropWhile (\<lambda>x. x \<noteq> CHR '']'') s1 = b1 # b2 # s3"
    by (auto simp: match_image_def split: list.splits if_splits)
  from m s d have "match_src_tail [] s3 = Some (a, t, r)"
    by (auto simp: match_image_def split: list.splits if_splits option.splits)
  then have "length r < length s3"
    by (rule match_src_tail_length)
  moreover have "length (dropWhile (\<lambda>x. x \<noteq> CHR '']'') s1) \<le> length s1"
    by (rule length_dropWhile_le)
  ultimately show ?thesis
    using s d by simp
qed

function replace_file_images :: "string \<Rightarrow> string" where
  \<comment> \<open>\<open>markdown.replace(/.../g, callback)\<close>: every match, from left to right, is replaced by
      what the callback returns, an \<open>img\<close> tag for a \<open>file://\<close> target and the match itself
      otherwise\<close>
  "replace_file_images [] = []"
| "replace_file_images (c # cs) =
     (case match_image (c # cs) of
        Some (alt, src', title', rest) \<Rightarrow>
          (if take 7 src' = ''file://'' then img_tag alt src' title'
           else take (length (c # cs) - length rest) (c # cs))
          @ replace_file_images rest
      | None \<Rightarrow> c # replace_file_images cs)"
  by pat_completeness auto
termination
  by (relation "measure length") (auto dest: match_image_length)

definition is_ascii_letter :: "char \<Rightarrow> bool" where
  "is_ascii_letter c =
     (let n = (of_char c :: nat) in (65 \<le> n \<and> n \<le> 90) \<or> (97 \<le> n \<and> n \<le> 122))"

definition singleTagMatch :: "string \<Rightarrow> string option" where
  \<comment> \<open>the first group of \<^verbatim>\<open>s.match(/^<([a-zA-Z][^>\s]*)\/?>$/)\<close>, or \<open>None\<close> for \<open>null\<close>. The
      greedy class takes every character up to the first \<open>>\<close> or white space, a slash
      included, so the optional slash after the group never takes one.\<close>
  "singleTagMatch s =
     (case s of
        c1 # c2 # r \<Rightarrow>
          if c1 = CHR ''<'' \<and> is_ascii_letter c2
             \<and> dropWhile (\<lambda>x. x \<noteq> CHR ''>'' \<and> \<not> is_js_space x) r = ''>''
          then Some (c2 # takeWhile (\<lambda>x. x \<noteq> CHR ''>'' \<and> \<not> is_js_space x) r)
          else None
      | _ \<Rightarrow> None)"

definition wrap_single_custom_tag :: "string \<Rightarrow> string \<Rightarrow> string" where
  \<comment> \<open>the lines of \<open>markdownToHtml\<close> between \<open>md.render\<close> and \<open>return html\<close>\<close>
  "wrap_single_custom_tag processedMarkdown html =
     (let trimmedMarkdown = trim processedMarkdown
      in if trim html = trimmedMarkdown then
           (case singleTagMatch trimmedMarkdown of
              Some tagName \<Rightarrow>
                if toLowerCase tagName \<notin> set htmlTags then ''<p>'' @ html @ ''</p>'' else html
            | None \<Rightarrow> html)
         else html)"

definition markdownToHtml :: "(string \<Rightarrow> error + string) \<Rightarrow> string option \<Rightarrow> error + string" where
  \<comment> \<open>the argument is \<open>None\<close> for \<open>null\<close> and \<open>undefined\<close>\<close>
  "markdownToHtml md_render markdown =
     (case markdown of
        None \<Rightarrow> Inr ''''
      | Some m \<Rightarrow>
          if m = [] then Inr ''''
          else
            (case (let processedMarkdown = replace_file_images m
                   in case md_render processedMarkdown of
                        Inl e \<Rightarrow> Inl e
                      | Inr html \<Rightarrow> Inr (wrap_single_custom_tag processedMarkdown html)) of
               Inl e \<Rightarrow> Inr ''''
             | Inr html \<Rightarrow> Inr html))"

section \<open>Properties of the task list rule\<close>

lemma loop_unfold:
  "i < length ts \<Longrightarrow> task_list_loop lbl i (ins, ts) = task_list_loop lbl (Suc i) (task_list_step lbl i (ins, ts))"
  by (subst task_list_loop.simps) simp

lemma loop_done:
  "length ts \<le> i \<Longrightarrow> task_list_loop lbl i (ins, ts) = ts"
  by (subst task_list_loop.simps) simp

lemma step_plain:
  "type t \<noteq> ''bullet_list_open'' \<Longrightarrow> type t \<noteq> ''bullet_list_close'' \<Longrightarrow>
   type t \<noteq> ''list_item_open'' \<Longrightarrow> type t \<noteq> ''inline'' \<Longrightarrow>
   task_list_step lbl (length pre) (ins, pre @ t # rest) = (ins, pre @ t # rest)"
  by (simp add: task_list_step_def)

lemma step_outside:
  "type t \<noteq> ''bullet_list_open'' \<Longrightarrow>
   task_list_step lbl (length pre) (False, pre @ t # rest) = (False, pre @ t # rest)"
  by (simp add: task_list_step_def)

lemma step_list_item_open:
  "type t = ''list_item_open'' \<Longrightarrow>
   task_list_step lbl (length pre) (True, pre @ t # rest) =
     (True, pre @ token_attrSet ''class'' ''task-list-item''
                    (token_attrSet ''data-type'' ''taskItem'' t) # rest)"
  by (simp add: task_list_step_def)

lemma step_close:
  "type t = ''bullet_list_close'' \<Longrightarrow>
   task_list_step lbl (length pre) (True, pre @ t # rest) = (False, pre @ t # rest)"
  by (simp add: task_list_step_def)

lemma task_match_check: "task_item_match c = Some (lead, check, r) \<Longrightarrow> toLowerCase_char check = CHR ''x'' \<longleftrightarrow> check = CHR ''x''"
  by (auto simp: task_item_match_def toLowerCase_char_def Let_def split: list.splits if_splits)

lemma step_inline:
  assumes "type p \<noteq> ''list_item_open''" "type li = ''list_item_open''" "type t = ''inline''"
  shows "task_list_step lbl (length (pre @ [li, p])) (True, (pre @ [li, p]) @ t # rest) =
     (True, (case task_item_match (content t) of None \<Rightarrow> pre @ [li, p] @ t # rest
        | Some (lead, check, r) \<Rightarrow>
           pre @ [token_attrSet ''data-checked'' (bool_toString (check = CHR ''x'')) li, p]
             @ rewrite_task_inline lbl (check = CHR ''x'') r t # rest))"
proof (cases "task_item_match (content t)")
  case None
  with assms show ?thesis
    by (simp add: task_list_step_def nth_append)
next
  case (Some m)
  obtain lead check r where m: "m = (lead, check, r)" by (cases m) auto
  have idx: "length (pre @ [li, p]) = Suc (Suc (length pre))" by simp
  have sp: "set_parent_checked v ((pre @ [li, p]) @ t # rest) (Suc (Suc (length pre))) =
            pre @ [token_attrSet ''data-checked'' v li, p] @ t # rest" for v
    using assms by (simp add: nth_append)
  have nth_t: "((pre @ [li, p]) @ t # rest) ! Suc (Suc (length pre)) = t"
    by (simp add: nth_append)
  show ?thesis
    unfolding idx task_list_step_def Let_def
    using assms Some m task_match_check[of "content t" lead check r]
    by (simp add: nth_t sp nth_append list_update_append)
qed

lemma has_unfold:
  "hasTaskItems_from (pre @ t # rest) (length pre) =
     (if type t \<noteq> ''bullet_list_close'' then
        (if type t = ''inline'' \<and> task_item_test (content t) then True
         else hasTaskItems_from ((pre @ [t]) @ rest) (length (pre @ [t])))
      else False)"
  by (subst hasTaskItems_from.simps) simp

lemma has_item:
  "hasTaskItems_from (pre @ list_item_tokens c @ rest) (length pre) =
     (task_item_test c \<or>
      hasTaskItems_from ((pre @ list_item_tokens c) @ rest) (length (pre @ list_item_tokens c)))"
proof -
  let ?a = "Token ''list_item_open'' ''li'' 1 [] '''' []"
  let ?b = "Token ''paragraph_open'' ''p'' 1 [] '''' []"
  let ?c = "Token ''inline'' '''' 0 [] c [Token ''text'' '''' 0 [] c []]"
  let ?d = "Token ''paragraph_close'' ''p'' (- 1) [] '''' []"
  let ?e = "Token ''list_item_close'' ''li'' (- 1) [] '''' []"
  have 1: "hasTaskItems_from (pre @ ?a # (?b # ?c # ?d # ?e # rest)) (length pre) =
           hasTaskItems_from ((pre @ [?a]) @ ?b # (?c # ?d # ?e # rest)) (length (pre @ [?a]))"
    by (subst has_unfold) simp
  have 2: "hasTaskItems_from ((pre @ [?a]) @ ?b # (?c # ?d # ?e # rest)) (length (pre @ [?a])) =
           hasTaskItems_from ((pre @ [?a, ?b]) @ ?c # (?d # ?e # rest)) (length (pre @ [?a, ?b]))"
    by (subst has_unfold) simp
  have 3: "hasTaskItems_from ((pre @ [?a, ?b]) @ ?c # (?d # ?e # rest)) (length (pre @ [?a, ?b])) =
           (task_item_test c \<or>
            hasTaskItems_from ((pre @ [?a, ?b, ?c]) @ ?d # (?e # rest)) (length (pre @ [?a, ?b, ?c])))"
    by (subst has_unfold) simp
  have 4: "hasTaskItems_from ((pre @ [?a, ?b, ?c]) @ ?d # (?e # rest)) (length (pre @ [?a, ?b, ?c])) =
           hasTaskItems_from ((pre @ [?a, ?b, ?c, ?d]) @ ?e # rest) (length (pre @ [?a, ?b, ?c, ?d]))"
    by (subst has_unfold) simp
  have 5: "hasTaskItems_from ((pre @ [?a, ?b, ?c, ?d]) @ ?e # rest) (length (pre @ [?a, ?b, ?c, ?d])) =
           hasTaskItems_from ((pre @ [?a, ?b, ?c, ?d, ?e]) @ rest) (length (pre @ [?a, ?b, ?c, ?d, ?e]))"
    by (subst has_unfold) simp
  show ?thesis
    using 1 2 3 4 5 by (simp add: list_item_tokens_def)
qed

lemma has_items:
  "hasTaskItems_from (pre @ concat (map list_item_tokens cs) @ [Token ''bullet_list_close'' ''ul'' (- 1) [] '''' []]) (length pre)
     = list_ex task_item_test cs"
proof (induction cs arbitrary: pre)
  case Nil
  show ?case by (subst hasTaskItems_from.simps) simp
next
  case (Cons c cs)
  show ?case
    using has_item[of pre c "concat (map list_item_tokens cs) @ [Token ''bullet_list_close'' ''ul'' (- 1) [] '''' []]"]
      Cons.IH[of "pre @ list_item_tokens c"]
    by simp
qed

lemma loop_step_at:
  "task_list_step lbl (length pre) (ins, pre @ t # rest) = (ins', ts') \<Longrightarrow>
   task_list_loop lbl (length pre) (ins, pre @ t # rest) = task_list_loop lbl (Suc (length pre)) (ins', ts')"
  by (subst task_list_loop.simps) simp

lemma loop_item:
  "task_list_loop lbl (length pre) (True, pre @ list_item_tokens c @ rest) =
   task_list_loop lbl (length (pre @ task_item_tokens lbl c))
     (True, (pre @ task_item_tokens lbl c) @ rest)"
proof -
  let ?a = "Token ''list_item_open'' ''li'' 1 [] '''' []"
  let ?a' = "Token ''list_item_open'' ''li'' 1
               [(''data-type'', ''taskItem''), (''class'', ''task-list-item'')] '''' []"
  let ?b = "Token ''paragraph_open'' ''p'' 1 [] '''' []"
  let ?c = "Token ''inline'' '''' 0 [] c [Token ''text'' '''' 0 [] c []]"
  let ?d = "Token ''paragraph_close'' ''p'' (- 1) [] '''' []"
  let ?e = "Token ''list_item_close'' ''li'' (- 1) [] '''' []"
  have 1: "task_list_loop lbl (length pre) (True, pre @ ?a # (?b # ?c # ?d # ?e # rest)) =
           task_list_loop lbl (length (pre @ [?a'])) (True, (pre @ [?a']) @ ?b # (?c # ?d # ?e # rest))"
    by (subst loop_step_at[OF step_list_item_open]) (simp_all add: token_attrSet_def)
  have 2: "task_list_loop lbl (length (pre @ [?a'])) (True, (pre @ [?a']) @ ?b # (?c # ?d # ?e # rest)) =
           task_list_loop lbl (length (pre @ [?a', ?b])) (True, (pre @ [?a', ?b]) @ ?c # (?d # ?e # rest))"
    by (subst loop_step_at[OF step_plain]) simp_all
  show ?thesis
  proof (cases "task_item_match c")
    case None
    have 3: "task_list_loop lbl (length (pre @ [?a', ?b])) (True, (pre @ [?a', ?b]) @ ?c # (?d # ?e # rest)) =
             task_list_loop lbl (length (pre @ [?a', ?b, ?c])) (True, (pre @ [?a', ?b, ?c]) @ ?d # (?e # rest))"
      using None by (subst loop_step_at[OF step_inline]) simp_all
    have 4: "task_list_loop lbl (length (pre @ [?a', ?b, ?c])) (True, (pre @ [?a', ?b, ?c]) @ ?d # (?e # rest)) =
             task_list_loop lbl (length (pre @ [?a', ?b, ?c, ?d])) (True, (pre @ [?a', ?b, ?c, ?d]) @ ?e # rest)"
      by (subst loop_step_at[OF step_plain]) simp_all
    have 5: "task_list_loop lbl (length (pre @ [?a', ?b, ?c, ?d])) (True, (pre @ [?a', ?b, ?c, ?d]) @ ?e # rest) =
             task_list_loop lbl (length (pre @ [?a', ?b, ?c, ?d, ?e])) (True, (pre @ [?a', ?b, ?c, ?d, ?e]) @ rest)"
      by (subst loop_step_at[OF step_plain]) simp_all
    show ?thesis
      using 1 2 3 4 5 None by (simp add: list_item_tokens_def task_item_tokens_def)
  next
    case (Some m)
    obtain lead check r where m: "m = (lead, check, r)" by (cases m) auto
    let ?a'' = "Token ''list_item_open'' ''li'' 1
               [(''data-type'', ''taskItem''), (''class'', ''task-list-item''),
                (''data-checked'', bool_toString (check = CHR ''x''))] '''' []"
    let ?c' = "rewrite_task_inline lbl (check = CHR ''x'') r ?c"
    have 3: "task_list_loop lbl (length (pre @ [?a', ?b])) (True, (pre @ [?a', ?b]) @ ?c # (?d # ?e # rest)) =
             task_list_loop lbl (length (pre @ [?a'', ?b, ?c'])) (True, (pre @ [?a'', ?b, ?c']) @ ?d # (?e # rest))"
      using Some m by (subst loop_step_at[OF step_inline]) (simp_all add: token_attrSet_def)
    have 4: "task_list_loop lbl (length (pre @ [?a'', ?b, ?c'])) (True, (pre @ [?a'', ?b, ?c']) @ ?d # (?e # rest)) =
             task_list_loop lbl (length (pre @ [?a'', ?b, ?c', ?d])) (True, (pre @ [?a'', ?b, ?c', ?d]) @ ?e # rest)"
      by (subst loop_step_at[OF step_plain]) simp_all
    have 5: "task_list_loop lbl (length (pre @ [?a'', ?b, ?c', ?d])) (True, (pre @ [?a'', ?b, ?c', ?d]) @ ?e # rest) =
             task_list_loop lbl (length (pre @ [?a'', ?b, ?c', ?d, ?e])) (True, (pre @ [?a'', ?b, ?c', ?d, ?e]) @ rest)"
      by (subst loop_step_at[OF step_plain]) simp_all
    show ?thesis
      using 1 2 3 4 5 Some m by (simp add: list_item_tokens_def task_item_tokens_def)
  qed
qed

lemma loop_items:
  "task_list_loop lbl (length pre)
     (True, pre @ concat (map list_item_tokens cs) @ [Token ''bullet_list_close'' ''ul'' (- 1) [] '''' []]) =
   pre @ concat (map (task_item_tokens lbl) cs) @ [Token ''bullet_list_close'' ''ul'' (- 1) [] '''' []]"
proof (induction cs arbitrary: pre)
  case Nil
  have "task_list_loop lbl (length pre) (True, pre @ Token ''bullet_list_close'' ''ul'' (- 1) [] '''' [] # []) =
        task_list_loop lbl (Suc (length pre)) (False, pre @ Token ''bullet_list_close'' ''ul'' (- 1) [] '''' [] # [])"
    by (subst loop_step_at[OF step_close]) simp_all
  then show ?case by (simp add: loop_done)
next
  case (Cons c cs)
  show ?case
    using loop_item[of lbl pre c "concat (map list_item_tokens cs) @ [Token ''bullet_list_close'' ''ul'' (- 1) [] '''' []]"]
      Cons.IH[of "pre @ task_item_tokens lbl c"]
    by simp
qed

lemma loop_outside:
  "list_all (\<lambda>t. type t \<noteq> ''bullet_list_open'') rest \<Longrightarrow>
   task_list_loop lbl (length pre) (False, pre @ rest) = pre @ rest"
proof (induction rest arbitrary: pre)
  case Nil
  show ?case by (simp add: loop_done)
next
  case (Cons t rest)
  have "task_list_loop lbl (length pre) (False, pre @ t # rest) =
        task_list_loop lbl (Suc (length pre)) (False, pre @ t # rest)"
    using Cons.prems by (subst loop_step_at[OF step_outside]) simp_all
  then show ?case
    using Cons.IH[of "pre @ [t]"] Cons.prems by simp
qed

lemma taskListPlugin_bullet_list:
  "taskListPlugin opts (bullet_list_tokens cs) =
     (if list_ex task_item_test cs then
        Token ''bullet_list_open'' ''ul'' 1 [(''data-type'', ''taskList''), (''class'', ''task-list'')] '''' []
          # concat (map (task_item_tokens (case label opts of None \<Rightarrow> False | Some b \<Rightarrow> b)) cs)
          @ [Token ''bullet_list_close'' ''ul'' (- 1) [] '''' []]
      else bullet_list_tokens cs)"
proof -
  let ?lbl = "case label opts of None \<Rightarrow> False | Some b \<Rightarrow> b"
  let ?o = "Token ''bullet_list_open'' ''ul'' 1 [] '''' []"
  let ?o' = "Token ''bullet_list_open'' ''ul'' 1 [(''data-type'', ''taskList''), (''class'', ''task-list'')] '''' []"
  let ?z = "Token ''bullet_list_close'' ''ul'' (- 1) [] '''' []"
  let ?body = "concat (map list_item_tokens cs) @ [?z]"
  have has: "hasTaskItems_from (?o # ?body) (Suc 0) = list_ex task_item_test cs"
    using has_items[of "[?o]" cs] by simp
  have step: "task_list_step ?lbl 0 (False, ?o # ?body) =
          (if list_ex task_item_test cs then (True, ?o' # ?body) else (False, ?o # ?body))"
    by (simp add: task_list_step_def has token_attrSet_def)
  have start: "task_list_loop ?lbl 0 (False, ?o # ?body) =
          task_list_loop ?lbl (Suc 0) (task_list_step ?lbl 0 (False, ?o # ?body))"
    by (subst task_list_loop.simps) simp
  show ?thesis
  proof (cases "list_ex task_item_test cs")
    case True
    then show ?thesis
      using start step loop_items[of ?lbl "[?o']" cs]
      by (simp add: taskListPlugin_def bullet_list_tokens_def)
  next
    case False
    have "list_all (\<lambda>t. type t \<noteq> ''bullet_list_open'') ?body"
      by (induction cs) (simp_all add: list_item_tokens_def)
    then show ?thesis
      using False start step loop_outside[of ?body ?lbl "[?o]"]
      by (simp add: taskListPlugin_def bullet_list_tokens_def)
  qed
qed


lemma length_list_item_tokens: "length (list_item_tokens c) = 5"
  by (simp add: list_item_tokens_def)














section \<open>Properties of the serializer rules\<close>

lemma colspan_cells_replicate:
  "colspan_cells i (i + int m) r = r @ concat (replicate m ''   |'')"
proof (induction m arbitrary: i r)
  case 0
  show ?case by (subst colspan_cells.simps) simp
next
  case (Suc m)
  have "colspan_cells i (i + int (Suc m)) r = colspan_cells (i + 1) (i + 1 + int m) (r @ ''   |'')"
    by (subst colspan_cells.simps) (simp add: algebra_simps)
  then show ?case
    using Suc.IH[of "i + 1" "r @ ''   |''"] by (simp add: replicate_app_Cons_same)
qed

lemma is_digit_char_of: "(d::nat) < 10 \<Longrightarrow> is_digit (char_of (48 + d))"
  by (simp add: is_digit_def)

lemma digit_value_char_of: "(d::nat) < 10 \<Longrightarrow> digit_value (char_of (48 + d)) = int d"
  by (simp add: digit_value_def)

lemma decimal_digits: "list_all is_digit (decimal n)"
proof (induction n rule: decimal.induct)
  case (1 n)
  show ?case
    by (subst decimal.simps) (use 1 in \<open>auto simp: is_digit_char_of\<close>)
qed

lemma decimal_nonempty: "decimal n \<noteq> []"
  by (subst decimal.simps) simp

lemma decimal_value: "foldl (\<lambda>acc d. acc * 10 + digit_value d) 0 (decimal n) = int n"
proof (induction n rule: decimal.induct)
  case (1 n)
  show ?case
  proof (cases "n < 10")
    case True
    then show ?thesis by (subst decimal.simps) (simp add: digit_value_char_of)
  next
    case False
    have "foldl (\<lambda>acc d. acc * 10 + digit_value d) 0 (decimal n) =
          int (n div 10) * 10 + int (n mod 10)"
      using False 1 by (subst decimal.simps) (simp add: digit_value_char_of)
    then show ?thesis by (simp add: zmod_int zdiv_int)
  qed
qed

lemma not_space_digit: "is_digit c \<Longrightarrow> \<not> is_js_space c \<and> c \<noteq> CHR ''-'' \<and> c \<noteq> CHR ''+''"
  by (auto simp: is_digit_def is_js_space_def)

lemma parseInt10_decimal: "parseInt10 (decimal n) = Some (int n)"
proof -
  obtain d ds where s: "decimal n = d # ds"
    using decimal_nonempty[of n] by (cases "decimal n") auto
  have all: "list_all is_digit (decimal n)"
    by (rule decimal_digits)
  then have d: "is_digit d"
    using s by simp
  have tw: "takeWhile is_digit (decimal n) = decimal n"
    using all by (simp add: list_all_iff)
  have dw: "dropWhile is_js_space (decimal n) = decimal n"
    using not_space_digit[OF d] s by simp
  have sign: "\<not> (hd (decimal n) = CHR ''-'' \<or> hd (decimal n) = CHR ''+'')"
    using not_space_digit[OF d] s by simp
  show ?thesis
    unfolding parseInt10_def Let_def dw
    using sign decimal_nonempty[of n] decimal_value[of n]
    by (simp add: tw)
qed

section \<open>Properties of the math rules\<close>

lemma index_of_prefix_char_None_iff:
  "index_of_prefix [c] s = None \<longleftrightarrow> c \<notin> set s"
  by (induction s) auto

lemma indexOf_char_None_iff: "indexOf s [c] 0 = None \<longleftrightarrow> c \<notin> set s"
  by (simp add: indexOf_def index_of_prefix_char_None_iff)

lemma index_of_prefix_take:
  "index_of_prefix pat s = Some q \<Longrightarrow> q + length pat \<le> n \<Longrightarrow>
   index_of_prefix pat (take n s) = Some q"
proof (induction s arbitrary: q n)
  case Nil
  then show ?case by (simp split: if_splits)
next
  case (Cons c cs)
  show ?case
  proof (cases "take (length pat) (c # cs) = pat")
    case True
    then have q: "q = 0" using Cons.prems(1) by simp
    have "take (length pat) (take n (c # cs)) = pat"
      using True Cons.prems(2) q by (simp add: min_absorb1)
    then show ?thesis
      using q by (cases n) (use True in \<open>auto split: if_splits\<close>)
  next
    case False
    then obtain q' where q': "index_of_prefix pat cs = Some q'" "q = Suc q'"
      using Cons.prems(1) by auto
    obtain n' where n: "n = Suc n'"
      using Cons.prems(2) q' by (cases n) auto
    have ih: "index_of_prefix pat (take n' cs) = Some q'"
      using Cons.IH[of q' n'] q' Cons.prems(2) n by simp
    have "length pat \<le> n" using Cons.prems(2) by simp
    then have "take (length pat) (take n (c # cs)) = take (length pat) (c # cs)"
      by (simp add: min_absorb1)
    then have "take (length pat) (c # take n' cs) \<noteq> pat"
      using False n by simp
    then show ?thesis
      using ih q' n by simp
  qed
qed

lemma of_char_dollar:
  assumes "of_char c = (36::nat)"
  shows "c = CHR ''$''"
proof -
  have "char_of (of_char c :: nat) = c" by simp
  then have "c = char_of (36::nat)" using assms by simp
  also have "char_of (36::nat) = CHR ''$''" by code_simp
  finally show ?thesis .
qed

lemma slice_starts_with_dollars:
  assumes "a + 2 \<le> b" and "charCodeAt s a = Some 0x24" and "charCodeAt s (a + 1) = Some 0x24"
  shows "indexOf (slice s a b) ''$$'' 0 = Some 0"
proof -
  have len: "a + 1 < length s"
    using assms(3) by (simp add: charCodeAt_def split: if_splits)
  have c0: "s ! a = CHR ''$''" and c1: "s ! (a + 1) = CHR ''$''"
    using assms(2,3) len by (auto simp: charCodeAt_def of_char_dollar split: if_splits)
  have "drop a s = s ! a # s ! (a + 1) # drop (a + 2) s"
    using len by (simp add: Cons_nth_drop_Suc)
  then obtain r where d: "drop a s = CHR ''$'' # CHR ''$'' # r"
    using c0 c1 by simp
  have m: "b - a = Suc (Suc (b - a - 2))"
    using assms(1) by simp
  have "take (b - a) (drop a s) = CHR ''$'' # CHR ''$'' # take (b - a - 2) r"
    by (subst m, subst d) simp
  then show ?thesis
    by (simp add: indexOf_def slice_def)
qed

lemma find_closing_None:
  assumes "\<forall>l. nextLine \<le> l \<and> l < endLine \<longrightarrow> indexOf (line_text state l) ''$$'' 0 = None"
  shows "find_closing state startLine endLine nextLine = None"
  using assms
proof (induction state startLine endLine nextLine rule: find_closing.induct)
  case (1 state startLine endLine nextLine)
  show ?case
  proof (cases "nextLine < endLine")
    case False
    then show ?thesis by (subst find_closing.simps) simp
  next
    case True
    let ?lineStart = "bMarks state ! nextLine + tShift state ! nextLine"
    let ?lineEnd = "eMarks state ! nextLine"
    have none: "indexOf (slice (src state) ?lineStart ?lineEnd) ''$$'' 0 = None"
      using "1.prems" True by (simp add: line_text_def)
    have no_start: "\<not> (?lineStart + 2 \<le> ?lineEnd \<and> charCodeAt (src state) ?lineStart = Some 0x24
                      \<and> charCodeAt (src state) (?lineStart + 1) = Some 0x24)"
      using none slice_starts_with_dollars[of ?lineStart ?lineEnd "src state"] by auto
    have rec: "find_closing state startLine endLine (Suc nextLine) = None"
      using "1.IH"[OF True refl refl refl none no_start] "1.prems" by simp
    show ?thesis
      using True none no_start rec by (subst find_closing.simps) (simp add: Let_def)
  qed
qed

lemma indexOf_dollar_here:
  assumes "charCodeAt s p = Some 0x24"
  shows "indexOf s ''$'' p = Some p"
proof -
  have len: "p < length s"
    using assms by (simp add: charCodeAt_def split: if_splits)
  have c: "s ! p = CHR ''$''"
    using assms len by (auto simp: charCodeAt_def of_char_dollar split: if_splits)
  have "drop p s = s ! p # drop (Suc p) s"
    using len by (simp add: Cons_nth_drop_Suc)
  then show ?thesis
    using c by (simp add: indexOf_def)
qed

lemma math_block_no_closing:
  assumes "bMarks state ! startLine + tShift state ! startLine + 2 \<le> eMarks state ! startLine"
    and "charCodeAt (src state) (bMarks state ! startLine + tShift state ! startLine) = Some 0x24"
    and "charCodeAt (src state) (bMarks state ! startLine + tShift state ! startLine + 1) = Some 0x24"
    and "indexOf (slice (src state) (bMarks state ! startLine + tShift state ! startLine + 2)
                   (eMarks state ! startLine)) ''$$'' 0 = None"
    and "list_all (\<lambda>l. indexOf (line_text state l) ''$$'' 0 = None) [Suc startLine ..< endLine]"
  shows "math_block state startLine endLine False = (False, state)"
proof -
  let ?startPos = "bMarks state ! startLine + tShift state ! startLine"
  let ?maxPos = "eMarks state ! startLine"
  have fc: "find_closing state startLine endLine (Suc startLine) = None"
    using assms(5) by (intro find_closing_None) (auto simp: list_all_iff)
  have same: "\<not> p \<le> ?maxPos - 2" if p: "indexOf (src state) ''$$'' (?startPos + 2) = Some p" for p
  proof
    assume le: "p \<le> ?maxPos - 2"
    obtain q where q: "index_of_prefix ''$$'' (drop (?startPos + 2) (src state)) = Some q"
        "p = ?startPos + 2 + q"
      using p by (auto simp: indexOf_def)
    have "q + length ''$$'' \<le> ?maxPos - (?startPos + 2)"
      using le q(2) assms(1) by simp
    then have "index_of_prefix ''$$'' (take (?maxPos - (?startPos + 2)) (drop (?startPos + 2) (src state))) = Some q"
      using q(1) by (rule index_of_prefix_take[rotated])
    then show False
      using assms(4) by (simp add: indexOf_def slice_def)
  qed
  show ?thesis
    using assms(1,2,3) fc same
    by (auto simp: math_block_def Let_def split: option.splits)
qed

lemma math_inline_adjacent_dollars:
  assumes "pos istate < posMax istate" and "charCodeAt (src istate) (pos istate) = Some 0x24"
    and "charCodeAt (src istate) (pos istate + 1) = Some 0x24"
  shows "math_inline istate False =
           (True,
            istate\<lparr>pushed := pushed istate @
                      [(push_token ''math_inline'' ''span'' 0)\<lparr>tl_content := ''''\<rparr>],
                   pos := pos istate + 2\<rparr>)"
proof -
  have c: "indexOf (src istate) ''$'' (Suc (pos istate)) = Some (Suc (pos istate))"
    using assms(3) indexOf_dollar_here[of "src istate" "Suc (pos istate)"] by simp
  have s: "slice (src istate) (Suc (pos istate)) (Suc (pos istate)) = []"
    by (simp add: slice_def)
  have i: "indexOf [] [CHR 0x0A] 0 = None"
    by (simp add: indexOf_def)
  have t: "trim [] = []"
    by (simp add: trim_def)
  show ?thesis
    using assms(1,2)
    by (simp add: math_inline_def Let_def c s i t)
qed

section \<open>Properties of the guard and the facade\<close>


lemma match_image_not_bang: "c \<noteq> CHR ''!'' \<Longrightarrow> match_image (c # cs) = None"
  unfolding match_image_def by (cases cs) simp_all

lemma replace_file_images_no_bang:
  "CHR ''!'' \<notin> set s \<Longrightarrow> replace_file_images s = s"
proof (induction s)
  case Nil
  show ?case by simp
next
  case (Cons c s)
  then have "c \<noteq> CHR ''!''" by auto
  then have m: "match_image (c # s) = None" by (rule match_image_not_bang)
  have "replace_file_images (c # s) = c # replace_file_images s"
    by (subst replace_file_images.simps) (simp only: m option.case)
  then show ?case using Cons by simp
qed



















section \<open>Claims about the task list rule\<close>

text \<open>
  C2. The task pattern of the rule accepts the markers \<open>[ ]\<close> and \<open>[x]\<close> only. An item written
  with the uppercase marker \<open>[X]\<close> is matched by neither regular expression, and a bullet list
  whose only item is written that way leaves the rule exactly as it came in: no list or item
  attribute, no checkbox. The source compares \<open>check.toLowerCase()\<close> with \<open>x\<close> after the
  match, which only an uppercase marker would need.
\<close>

theorem task_list_uppercase_marker_not_recognized:
  "task_item_test (''[X] '' @ r) = False \<and>
   task_item_match (''[X] '' @ r) = None \<and>
   md_task_list (bullet_list_tokens [''[X] '' @ r]) = bullet_list_tokens [''[X] '' @ r]"
proof -
  have t: "task_item_test (''[X] '' @ r) = False"
    by (simp add: task_item_test_def is_js_space_def)
  have m: "task_item_match (''[X] '' @ r) = None"
    by (simp add: task_item_match_def is_js_space_def)
  have "md_task_list (bullet_list_tokens [''[X] '' @ r]) = bullet_list_tokens [''[X] '' @ r]"
    using t by (simp add: md_task_list_def taskListPlugin_bullet_list)
  with t m show ?thesis by simp
qed







section \<open>Claims about the table cell rule\<close>

text \<open>
  C5. A table cell whose \<open>colspan\<close> attribute is the decimal numeral of \<open>n > 1\<close> renders as its
  prefix, its own content and \<open> |\<close>, followed by exactly \<open>n - 1\<close> empty padded cells \<open>   |\<close>
  and nothing else; \<open>colspan="3"\<close> gives exactly two. (\<open>parseInt\<close> is exact below \<open>2^53\<close>.)
\<close>

theorem cellWithLatex_colspan:
  assumes "1 < n" and "n < 2 ^ 53"
    and "is_element node'" and "getAttribute node' ''colspan'' = Some (decimal n)"
  shows "cellWithLatex he_decode content' node' index indexInParent =
     (if (case index of None \<Rightarrow> (case indexInParent of None \<Rightarrow> 0 | Some k \<Rightarrow> k) | Some k \<Rightarrow> k) = 0
      then ''| '' else '' '')
     @ cleanCellContent he_decode content' (Some node') @ '' |''
     @ concat (replicate (n - 1) ''   |'')"
proof -
  have c: "colspan_cells 1 (int n) r = r @ concat (replicate (n - 1) ''   |'')" for r
    using colspan_cells_replicate[of 1 "n - 1" r] assms(1) by (simp add: of_nat_diff)
  show ?thesis
    using assms decimal_nonempty[of n]
    by (auto simp: cellWithLatex_def Let_def parseInt10_decimal c split: option.splits)
qed

theorem cellWithLatex_colspan_witness:
  "(1::nat) < 3 \<and> (3::nat) < 2 ^ 53 \<and>
   is_element (Element ''TD'' [(''colspan'', ''3'')] [TextNode ''x'']) \<and>
   getAttribute (Element ''TD'' [(''colspan'', ''3'')] [TextNode ''x'']) ''colspan'' = Some (decimal 3) \<and>
   cellWithLatex (\<lambda>s. s) ''x'' (Element ''TD'' [(''colspan'', ''3'')] [TextNode ''x'']) None (Some 1) =
     '' x   |   |   |''"
proof -
  have d: "decimal 3 = ''3''"
    by code_simp
  have c: "cleanCellContent (\<lambda>s. s) ''x'' (Some (Element ''TD'' [(''colspan'', ''3'')] [TextNode ''x''])) = ''x  ''"
    by (simp add: cleanCellContent_def querySelector_data_type_def querySelectorAll_data_type_def
          trim_def is_js_space_def replace_char_def Let_def numeral_eq_Suc)
  have r: "concat (replicate 2 ''   |'') = ''   |   |''"
    by (simp add: numeral_2_eq_2)
  show ?thesis
    using cellWithLatex_colspan[of 3 "Element ''TD'' [(''colspan'', ''3'')] [TextNode ''x'']"
            "\<lambda>s. s" "''x''" None "Some 1"]
    by (simp add: d c r)
qed

section \<open>Claims about the math rules\<close>

text \<open>
  C7, as stated, fails in its second half. On the document of the two lines \<open>$$ foo\<close> and
  \<open>bar\<close> the block rule rejects, as the claim says: it returns \<open>false\<close> and leaves the state
  as it found it. But the text does not come back as ordinary paragraph text. The engine's
  paragraph hands the text \<open>$$ foo\<close>, line feed, \<open>bar\<close> to the inline rules, and there the
  inline math rule of the same plugin accepts at the leading \<open>$$\<close>: the second \<open>$\<close> is the next
  \<open>$\<close> after the first, the span between them is empty, and a \<open>math_inline\<close> token with empty
  content is pushed in place of the two characters.
\<close>

theorem unterminated_math_fence_becomes_inline_math:
  "math_block
     \<lparr>src = ''$$ foo'' @ [CHR 0x0A] @ ''bar'', pushed = [], bMarks = [0, 7, 10],
      eMarks = [6, 10, 10], tShift = [0, 0, 0], line = 0, parentType = ''root'', blkIndent = 0\<rparr>
     0 2 False =
   (False,
     \<lparr>src = ''$$ foo'' @ [CHR 0x0A] @ ''bar'', pushed = [], bMarks = [0, 7, 10],
      eMarks = [6, 10, 10], tShift = [0, 0, 0], line = 0, parentType = ''root'', blkIndent = 0\<rparr>) \<and>
   math_inline \<lparr>src = ''$$ foo'' @ [CHR 0x0A] @ ''bar'', pushed = [], pos = 0, posMax = 10\<rparr> False =
     (True, \<lparr>src = ''$$ foo'' @ [CHR 0x0A] @ ''bar'',
             pushed = [\<lparr>tl_type = ''math_inline'', tl_tag = ''span'', tl_nesting = 0,
                        tl_content = '''', tl_block = False, tl_map = None\<rparr>],
             pos = 2, posMax = 10\<rparr>)"
proof -
  let ?st = "\<lparr>src = ''$$ foo'' @ [CHR 0x0A] @ ''bar'', pushed = [], bMarks = [0, 7, 10],
      eMarks = [6, 10, 10], tShift = [0, 0, 0], line = 0, parentType = ''root'', blkIndent = 0\<rparr>"
  let ?ist = "\<lparr>src = ''$$ foo'' @ [CHR 0x0A] @ ''bar'', pushed = [], pos = 0, posMax = 10\<rparr>"
  have u: "[Suc 0 ..< 2] = [1]"
    by (simp add: upt_rec)
  have b: "math_block ?st 0 2 False = (False, ?st)"
    by (rule math_block_no_closing)
       (simp_all add: charCodeAt_def indexOf_def slice_def line_text_def u)
  have i: "math_inline ?ist False =
           (True,
            ?ist\<lparr>pushed := pushed ?ist @
                      [(push_token ''math_inline'' ''span'' 0)\<lparr>tl_content := ''''\<rparr>],
                   pos := pos ?ist + 2\<rparr>)"
    by (rule math_inline_adjacent_dollars) (simp_all add: charCodeAt_def)
  show ?thesis
    using b i by (simp add: push_token_def)
qed

text \<open>
  C7, amended. A line that begins, after its indentation, with \<open>$$\<close>, whose remainder holds no
  further \<open>$$\<close>, and that is followed up to \<open>endLine\<close> only by lines without \<open>$$\<close>, is rejected
  by the block rule: the rule returns \<open>false\<close> and leaves the state as it found it (no token,
  the line counter unmoved), without an error, so that the engine tries its other block
  rules on the same line. The state is one the engine builds: the line arrays cover every
  line up to \<open>endLine\<close>. When the text then reaches the inline rules, it is not all ordinary
  text: wherever the inline math rule stands on a \<open>$\<close> that is directly followed by another
  \<open>$\<close>, as at the opening \<open>$$\<close>, it accepts, pushes a \<open>math_inline\<close> token with empty content and
  moves past both characters.
\<close>

theorem math_block_rejects_unterminated:
  assumes "bMarks state ! startLine + tShift state ! startLine + 2 \<le> eMarks state ! startLine"
    and "charCodeAt (src state) (bMarks state ! startLine + tShift state ! startLine) = Some 0x24"
    and "charCodeAt (src state) (bMarks state ! startLine + tShift state ! startLine + 1) = Some 0x24"
    and "indexOf (slice (src state) (bMarks state ! startLine + tShift state ! startLine + 2)
                   (eMarks state ! startLine)) ''$$'' 0 = None"
    and "list_all (\<lambda>l. indexOf (line_text state l) ''$$'' 0 = None) [Suc startLine ..< endLine]"
    and "startLine < endLine" and "endLine \<le> length (bMarks state)"
    and "endLine \<le> length (eMarks state)" and "endLine \<le> length (tShift state)"
  shows "math_block state startLine endLine False = (False, state) \<and>
         (pos istate < posMax istate \<and> charCodeAt (src istate) (pos istate) = Some 0x24 \<and>
          charCodeAt (src istate) (pos istate + 1) = Some 0x24 \<longrightarrow>
            math_inline istate False =
              (True,
               istate\<lparr>pushed := pushed istate @
                         [(push_token ''math_inline'' ''span'' 0)\<lparr>tl_content := ''''\<rparr>],
                      pos := pos istate + 2\<rparr>))"
  using math_block_no_closing[OF assms(1-5)] math_inline_adjacent_dollars[of istate]
  by blast

theorem math_block_rejects_unterminated_witness:
  "math_block
     \<lparr>src = ''  $$x'' @ [CHR 0x0A] @ ''y'', pushed = [], bMarks = [0, 6, 7],
      eMarks = [5, 7, 7], tShift = [2, 0, 0], line = 0, parentType = ''root'', blkIndent = 0\<rparr>
     0 2 False =
   (False,
     \<lparr>src = ''  $$x'' @ [CHR 0x0A] @ ''y'', pushed = [], bMarks = [0, 6, 7],
      eMarks = [5, 7, 7], tShift = [2, 0, 0], line = 0, parentType = ''root'', blkIndent = 0\<rparr>) \<and>
   math_inline \<lparr>src = ''$$x'' @ [CHR 0x0A] @ ''y'', pushed = [], pos = 0, posMax = 5\<rparr> False =
     (True, \<lparr>src = ''$$x'' @ [CHR 0x0A] @ ''y'',
             pushed = [\<lparr>tl_type = ''math_inline'', tl_tag = ''span'', tl_nesting = 0,
                        tl_content = '''', tl_block = False, tl_map = None\<rparr>],
             pos = 2, posMax = 5\<rparr>)"
proof -
  let ?st = "\<lparr>src = ''  $$x'' @ [CHR 0x0A] @ ''y'', pushed = [], bMarks = [0, 6, 7],
      eMarks = [5, 7, 7], tShift = [2, 0, 0], line = 0, parentType = ''root'', blkIndent = 0\<rparr>"
  let ?ist = "\<lparr>src = ''$$x'' @ [CHR 0x0A] @ ''y'', pushed = [], pos = 0, posMax = 5\<rparr>"
  have u: "[Suc 0 ..< 2] = [1]"
    by (simp add: upt_rec)
  have "math_block ?st 0 2 False = (False, ?st) \<and>
         (pos ?ist < posMax ?ist \<and> charCodeAt (src ?ist) (pos ?ist) = Some 0x24 \<and>
          charCodeAt (src ?ist) (pos ?ist + 1) = Some 0x24 \<longrightarrow>
            math_inline ?ist False =
              (True,
               ?ist\<lparr>pushed := pushed ?ist @
                         [(push_token ''math_inline'' ''span'' 0)\<lparr>tl_content := ''''\<rparr>],
                      pos := pos ?ist + 2\<rparr>))"
    by (rule math_block_rejects_unterminated)
       (simp_all add: charCodeAt_def indexOf_def slice_def line_text_def u)
  then show ?thesis
    by (simp add: charCodeAt_def push_token_def)
qed

text \<open>
  C8. The inline rule opens a span only when it stands on a \<open>$\<close>, there is a next \<open>$\<close>, at
  \<open>close\<close>, not beyond \<open>posMax\<close>, and no line feed lies between the two. In every other case it
  returns \<open>false\<close> and leaves the state untouched (nothing pushed, the position unmoved), so
  that the engine goes on to treat the \<open>$\<close> as text: when a line feed lies between the two
  delimiters, when there is no further \<open>$\<close>, and when the next \<open>$\<close> lies beyond \<open>posMax\<close>. When
  it accepts, it moves to \<open>close + 1\<close> and, unless silent, pushes a \<open>math_inline\<close> token with
  the trimmed span.
\<close>

theorem math_inline_single_line_only:
  "(fst (math_inline state silent) \<longrightarrow>
      pos state < posMax state \<and> charCodeAt (src state) (pos state) = Some 0x24 \<and>
      (\<exists>close. indexOf (src state) ''$'' (pos state + 1) = Some close \<and> close \<le> posMax state \<and>
         CHR 0x0A \<notin> set (slice (src state) (pos state + 1) close))) \<and>
   (\<not> fst (math_inline state silent) \<longrightarrow> math_inline state silent = (False, state)) \<and>
   (pos state < posMax state \<and> charCodeAt (src state) (pos state) = Some 0x24 \<and>
    indexOf (src state) ''$'' (pos state + 1) = Some close \<longrightarrow>
      (CHR 0x0A \<in> set (slice (src state) (pos state + 1) close) \<longrightarrow>
         math_inline state silent = (False, state)) \<and>
      (posMax state < close \<longrightarrow> math_inline state silent = (False, state)) \<and>
      (CHR 0x0A \<notin> set (slice (src state) (pos state + 1) close) \<and> close \<le> posMax state \<longrightarrow>
         math_inline state silent =
           (True,
            (if \<not> silent
             then state\<lparr>pushed := pushed state @
                      [(push_token ''math_inline'' ''span'' 0)
                         \<lparr>tl_content := trim (slice (src state) (pos state + 1) close)\<rparr>]\<rparr>
             else state)\<lparr>pos := close + 1\<rparr>))) \<and>
   (pos state < posMax state \<and> charCodeAt (src state) (pos state) = Some 0x24 \<and>
    indexOf (src state) ''$'' (pos state + 1) = None \<longrightarrow>
      math_inline state silent = (False, state))"
  by (auto simp: math_inline_def Let_def indexOf_char_None_iff split: option.splits)

theorem math_inline_single_line_only_witness:
  "math_inline \<lparr>src = ''$a'' @ [CHR 0x0A] @ ''b$ c'', pushed = [], pos = 0, posMax = 7\<rparr> False =
     (False, \<lparr>src = ''$a'' @ [CHR 0x0A] @ ''b$ c'', pushed = [], pos = 0, posMax = 7\<rparr>) \<and>
   math_inline \<lparr>src = ''$a+b$ c'', pushed = [], pos = 0, posMax = 7\<rparr> False =
     (True, \<lparr>src = ''$a+b$ c'',
             pushed = [\<lparr>tl_type = ''math_inline'', tl_tag = ''span'', tl_nesting = 0,
                        tl_content = ''a+b'', tl_block = False, tl_map = None\<rparr>],
             pos = 5, posMax = 7\<rparr>) \<and>
   math_inline \<lparr>src = ''$5 only'', pushed = [], pos = 0, posMax = 7\<rparr> False =
     (False, \<lparr>src = ''$5 only'', pushed = [], pos = 0, posMax = 7\<rparr>) \<and>
   math_inline \<lparr>src = ''$a b$'', pushed = [], pos = 0, posMax = 2\<rparr> False =
     (False, \<lparr>src = ''$a b$'', pushed = [], pos = 0, posMax = 2\<rparr>)"
proof -
  let ?s1 = "\<lparr>src = ''$a'' @ [CHR 0x0A] @ ''b$ c'', pushed = [], pos = 0, posMax = 7\<rparr>"
  let ?s2 = "\<lparr>src = ''$a+b$ c'', pushed = [], pos = 0, posMax = 7\<rparr>"
  let ?s3 = "\<lparr>src = ''$5 only'', pushed = [], pos = 0, posMax = 7\<rparr>"
  let ?s4 = "\<lparr>src = ''$a b$'', pushed = [], pos = 0, posMax = 2\<rparr>"
  have p1: "pos ?s1 < posMax ?s1 \<and> charCodeAt (src ?s1) (pos ?s1) = Some 0x24 \<and>
            indexOf (src ?s1) ''$'' (pos ?s1 + 1) = Some 4"
    by (simp add: charCodeAt_def indexOf_def)
  have n1: "CHR 0x0A \<in> set (slice (src ?s1) (pos ?s1 + 1) 4)"
    by (simp add: slice_def)
  have 1: "math_inline ?s1 False = (False, ?s1)"
    using math_inline_single_line_only[of ?s1 False 4, THEN conjunct2, THEN conjunct2, THEN conjunct1]
      p1 n1
    by blast
  have p2: "pos ?s2 < posMax ?s2 \<and> charCodeAt (src ?s2) (pos ?s2) = Some 0x24 \<and>
            indexOf (src ?s2) ''$'' (pos ?s2 + 1) = Some 4"
    by (simp add: charCodeAt_def indexOf_def)
  have n2: "CHR 0x0A \<notin> set (slice (src ?s2) (pos ?s2 + 1) 4) \<and> 4 \<le> posMax ?s2"
    by (simp add: slice_def)
  have "math_inline ?s2 False =
           (True,
            (if \<not> False
             then ?s2\<lparr>pushed := pushed ?s2 @
                      [(push_token ''math_inline'' ''span'' 0)
                         \<lparr>tl_content := trim (slice (src ?s2) (pos ?s2 + 1) 4)\<rparr>]\<rparr>
             else ?s2)\<lparr>pos := 4 + 1\<rparr>)"
    using math_inline_single_line_only[of ?s2 False 4, THEN conjunct2, THEN conjunct2, THEN conjunct1]
      p2 n2
    by blast
  then have 2: "math_inline ?s2 False =
     (True, \<lparr>src = ''$a+b$ c'',
             pushed = [\<lparr>tl_type = ''math_inline'', tl_tag = ''span'', tl_nesting = 0,
                        tl_content = ''a+b'', tl_block = False, tl_map = None\<rparr>],
             pos = 5, posMax = 7\<rparr>)"
    by (simp add: slice_def push_token_def trim_def is_js_space_def)
  have p3: "pos ?s3 < posMax ?s3 \<and> charCodeAt (src ?s3) (pos ?s3) = Some 0x24 \<and>
            indexOf (src ?s3) ''$'' (pos ?s3 + 1) = None"
    by (simp add: charCodeAt_def indexOf_def)
  have 3: "math_inline ?s3 False = (False, ?s3)"
    using math_inline_single_line_only[of ?s3 False 0, THEN conjunct2, THEN conjunct2, THEN conjunct2]
      p3
    by blast
  have p4: "pos ?s4 < posMax ?s4 \<and> charCodeAt (src ?s4) (pos ?s4) = Some 0x24 \<and>
            indexOf (src ?s4) ''$'' (pos ?s4 + 1) = Some 4"
    by (simp add: charCodeAt_def indexOf_def)
  have n4: "posMax ?s4 < 4"
    by simp
  have 4: "math_inline ?s4 False = (False, ?s4)"
    using math_inline_single_line_only[of ?s4 False 4, THEN conjunct2, THEN conjunct2, THEN conjunct1]
      p4 n4
    by blast
  show ?thesis
    using 1 2 3 4 by simp
qed

section \<open>Claims about the guard and the facade\<close>






text \<open>
  C10. The wrapping step takes as the tag's name everything between \<open><\<close> and \<open>>\<close>, a closing
  slash included. The self-closing form of a standard tag, \<open><br/>\<close>, therefore has the name
  \<open>br/\<close>, which is not in the vocabulary, and the rendered output is wrapped in \<open><p>\<close>
  although \<open>br\<close> is a standard tag. The engine renders this input as it stands.
\<close>

theorem markdownToHtml_wraps_self_closing_standard_tag:
  "singleTagMatch ''<br/>'' = Some ''br/'' \<and> ''br'' \<in> set htmlTags \<and>
   markdownToHtml (\<lambda>s. Inr ''<br/>'') (Some ''<br/>'') = Inr ''<p><br/></p>'' \<and>
   markdownToHtml (\<lambda>s. Inr ''<br>'') (Some ''<br>'') = Inr ''<br>''"
  by code_simp

section \<open>The round trip of a math block\<close>

text \<open>
  C4. On the document \<open>$$a+b+c$$\<close> the block rule accepts at line 0 and pushes one
  \<open>math_block\<close> token with the content \<open>a+b+c\<close>; its renderer prints the container
  \<open><div data-latex="a+b+c" data-type="block-math"></div>\<close>, which \<open>markdownToHtml\<close> returns
  unwrapped, and whose \<open>data-latex\<close> attribute decodes to \<open>a+b+c\<close>. On that container string
  the guard changes nothing (\<open>div\<close> is standard), \<open>blankReplacement\<close> turns the blank
  \<open>DIV\<close> element into \<open>$$a+b+c$$\<close> and two line feeds, and \<open>htmlToMarkdown\<close> returns
  \<open>$$a+b+c$$\<close>. The libraries enter as follows: the codec leaves this plain text unchanged,
  the engine renders the tokens that the rule pushed, the tokenizer makes the callbacks for
  the one \<open>div\<close> tag pair, and the serializer returns the replacement of its one blank node,
  up to white space at its ends.
\<close>

theorem block_math_round_trip:
  assumes "he_encode ''a+b+c'' = ''a+b+c''"
    and "\<forall>s. CHR ''&'' \<notin> set s \<longrightarrow> he_decode s = s"
    and "md_render ''$$a+b+c$$'' =
           Inr (concat (map (math_block_render he_encode)
                  (pushed (snd (math_block
                     \<lparr>src = ''$$a+b+c$$'', pushed = [], bMarks = [0, 9], eMarks = [9, 9],
                      tShift = [0, 0], line = 0, parentType = ''root'', blkIndent = 0\<rparr>
                     0 1 False)))))"
    and "parser_events ''<div data-latex=\"a+b+c\" data-type=\"block-math\"></div>'' =
           [OnOpenTagName ''div'' 0 4, OnCloseTag ''div'' 47 52]"
    and "\<exists>r. turndown ''<div data-latex=\"a+b+c\" data-type=\"block-math\"></div>'' = Inr r \<and>
           trim r =
             trim (blankReplacement he_decode ''''
                     (Element ''DIV'' [(''data-latex'', ''a+b+c''), (''data-type'', ''block-math'')] [])
                     True)"
  shows "math_block
           \<lparr>src = ''$$a+b+c$$'', pushed = [], bMarks = [0, 9], eMarks = [9, 9],
            tShift = [0, 0], line = 0, parentType = ''root'', blkIndent = 0\<rparr> 0 1 False =
         (True,
           \<lparr>src = ''$$a+b+c$$'',
            pushed = [\<lparr>tl_type = ''math_block'', tl_tag = ''div'', tl_nesting = 0,
                       tl_content = ''a+b+c'', tl_block = True, tl_map = Some (0, 0)\<rparr>],
            bMarks = [0, 9], eMarks = [9, 9], tShift = [0, 0], line = 1,
            parentType = ''root'', blkIndent = 0\<rparr>) \<and>
       markdownToHtml md_render (Some ''$$a+b+c$$'') =
         Inr ''<div data-latex=\"a+b+c\" data-type=\"block-math\"></div>'' \<and>
       he_decode ''a+b+c'' = ''a+b+c'' \<and>
       htmlToMarkdown parser_events turndown he_decode
           (Some ''<div data-latex=\"a+b+c\" data-type=\"block-math\"></div>'') =
         Inr ''$$a+b+c$$''"
proof -
  let ?st = "\<lparr>src = ''$$a+b+c$$'', pushed = [], bMarks = [0, 9], eMarks = [9, 9],
            tShift = [0, 0], line = 0, parentType = ''root'', blkIndent = 0\<rparr>"
  let ?C = "''<div data-latex=\"a+b+c\" data-type=\"block-math\"></div>''"
  have rule: "math_block ?st 0 1 False =
         (True,
           \<lparr>src = ''$$a+b+c$$'',
            pushed = [\<lparr>tl_type = ''math_block'', tl_tag = ''div'', tl_nesting = 0,
                       tl_content = ''a+b+c'', tl_block = True, tl_map = Some (0, 0)\<rparr>],
            bMarks = [0, 9], eMarks = [9, 9], tShift = [0, 0], line = 1,
            parentType = ''root'', blkIndent = 0\<rparr>)"
    by (simp add: math_block_def charCodeAt_def indexOf_def slice_def trim_def is_js_space_def
          push_token_def Let_def)
  have render: "md_render ''$$a+b+c$$'' = Inr ?C"
    using assms(1,3) unfolding rule by (simp add: math_block_render_def)
  have pre: "replace_file_images ''$$a+b+c$$'' = ''$$a+b+c$$''"
    by (rule replace_file_images_no_bang) simp
  have wrap: "wrap_single_custom_tag ''$$a+b+c$$'' ?C = ?C"
    by (simp add: wrap_single_custom_tag_def trim_def is_js_space_def Let_def)
  have to_html: "markdownToHtml md_render (Some ''$$a+b+c$$'') = Inr ?C"
    by (simp only: markdownToHtml_def option.case Let_def pre render wrap sum.case) simp
  have dec1: "he_decode ''a+b+c'' = ''a+b+c''"
    using assms(2) by simp
  have dec2: "he_decode ''$$a+b+c$$'' = ''$$a+b+c$$''"
    using assms(2) by simp
  have guard: "escapeCustomTags [OnOpenTagName ''div'' 0 4, OnCloseTag ''div'' 47 52] ?C = ?C"
    by code_simp
  have blank: "blankReplacement he_decode ''''
                  (Element ''DIV'' [(''data-latex'', ''a+b+c''), (''data-type'', ''block-math'')] [])
                  True = ''$$a+b+c$$'' @ [CHR 0x0A, CHR 0x0A]"
    by (simp add: blankReplacement_def or_empty_def dec1)
  have tr: "trim (''$$a+b+c$$'' @ [CHR 0x0A, CHR 0x0A]) = ''$$a+b+c$$''"
    by (simp add: trim_def is_js_space_def)
  have to_md: "htmlToMarkdown parser_events turndown he_decode (Some ?C) = Inr ''$$a+b+c$$''"
  proof -
    obtain r where r: "turndown ?C = Inr r"
      and t: "trim r = trim (blankReplacement he_decode ''''
                 (Element ''DIV'' [(''data-latex'', ''a+b+c''), (''data-type'', ''block-math'')] [])
                 True)"
      using assms(5) by blast
    have "trim r = ''$$a+b+c$$''"
      unfolding t blank tr ..
    then show ?thesis
      by (simp only: htmlToMarkdown_def option.case Let_def assms(4) guard r sum.case dec2)
         simp
  qed
  show ?thesis
    using rule to_html dec1 to_md by simp
qed

theorem block_math_round_trip_witness:
  "markdownToHtml
     (\<lambda>s. Inr (concat (map (math_block_render (\<lambda>s. s))
             (pushed (snd (math_block
                \<lparr>src = ''$$a+b+c$$'', pushed = [], bMarks = [0, 9], eMarks = [9, 9],
                 tShift = [0, 0], line = 0, parentType = ''root'', blkIndent = 0\<rparr>
                0 1 False))))))
     (Some ''$$a+b+c$$'') =
     Inr ''<div data-latex=\"a+b+c\" data-type=\"block-math\"></div>'' \<and>
   htmlToMarkdown
     (\<lambda>s. [OnOpenTagName ''div'' 0 4, OnCloseTag ''div'' 47 52])
     (\<lambda>s. Inr ''$$a+b+c$$'')
     (\<lambda>s. s)
     (Some ''<div data-latex=\"a+b+c\" data-type=\"block-math\"></div>'') =
     Inr ''$$a+b+c$$''"
proof -
  let ?enc = "\<lambda>s::string. s"
  let ?st = "\<lparr>src = ''$$a+b+c$$'', pushed = [], bMarks = [0, 9], eMarks = [9, 9],
            tShift = [0, 0], line = 0, parentType = ''root'', blkIndent = 0\<rparr>"
  let ?md = "\<lambda>s::string. (Inr (concat (map (math_block_render ?enc)
                 (pushed (snd (math_block ?st 0 1 False))))) :: error + string)"
  let ?pe = "\<lambda>s::string. [OnOpenTagName ''div'' 0 4, OnCloseTag ''div'' 47 52]"
  let ?td = "\<lambda>s::string. (Inr ''$$a+b+c$$'' :: error + string)"
  have h1: "?enc ''a+b+c'' = ''a+b+c''"
    by simp
  have h2: "\<forall>s. CHR ''&'' \<notin> set s \<longrightarrow> ?enc s = s"
    by simp
  have h3: "?md ''$$a+b+c$$'' =
           Inr (concat (map (math_block_render ?enc) (pushed (snd (math_block ?st 0 1 False)))))"
    by simp
  have h4: "?pe ''<div data-latex=\"a+b+c\" data-type=\"block-math\"></div>'' =
           [OnOpenTagName ''div'' 0 4, OnCloseTag ''div'' 47 52]"
    by simp
  have h5: "\<exists>r. ?td ''<div data-latex=\"a+b+c\" data-type=\"block-math\"></div>'' = Inr r \<and>
           trim r =
             trim (blankReplacement ?enc ''''
                     (Element ''DIV'' [(''data-latex'', ''a+b+c''), (''data-type'', ''block-math'')] [])
                     True)"
    by (simp add: blankReplacement_def or_empty_def trim_def is_js_space_def)
  show ?thesis
    using block_math_round_trip[of ?enc ?enc ?md ?pe ?td, OF h1 h2 h3 h4 h5]
    by blast
qed

end
